theory Spec2Isabelle
  imports Complex_Main "HOL-Library.Word"
begin

unbundle bit_operations_syntax

section \<open>Python values\<close>

text \<open>
  A Python float is a finite value, an infinity or a NaN.  A finite float is modelled by
  the real number it denotes (so \<open>-0.0\<close> and \<open>0.0\<close> coincide); the migration script
  does no arithmetic on floats, it only compares and stores them.
\<close>

datatype pyfloat = Finite real | PosInf | NegInf | NaN

text \<open>The comparison \<open>a < b\<close> of two floats: false as soon as a NaN is involved.\<close>

fun float_lt :: "pyfloat \<Rightarrow> pyfloat \<Rightarrow> bool" where
  "float_lt NaN _ = False"
| "float_lt _ NaN = False"
| "float_lt (Finite a) (Finite b) = (a < b)"
| "float_lt (Finite _) PosInf = True"
| "float_lt (Finite _) NegInf = False"
| "float_lt PosInf _ = False"
| "float_lt NegInf NegInf = False"
| "float_lt NegInf _ = True"

text \<open>
  The builtins \<open>min(a, b)\<close> and \<open>max(a, b)\<close>: the first argument is kept unless the
  second is strictly smaller (respectively strictly greater).
\<close>

definition py_min :: "pyfloat \<Rightarrow> pyfloat \<Rightarrow> pyfloat" where
  "py_min a b = (if float_lt b a then b else a)"

definition py_max :: "pyfloat \<Rightarrow> pyfloat \<Rightarrow> pyfloat" where
  "py_max a b = (if float_lt a b then b else a)"

text \<open>The exceptions that occur in the script.\<close>

datatype py_error =
  TypeError | ValueError | OverflowError | JSONDecodeError | RecursionError | ImportError
  | IntegrityError

text \<open>
  The values a metadata mapping holds (\<open>str\<close>, \<open>int\<close>, \<open>float\<close>, as
  \<open>_read_chroma_collection\<close> builds it) and \<open>None\<close>, which the script produces with
  \<open>or None\<close>.
\<close>

datatype pyval = PNone | PStr string | PInt int | PFloat pyfloat

fun truthy :: "pyval \<Rightarrow> bool" where
  "truthy PNone = False"
| "truthy (PStr s) = (s \<noteq> [])"
| "truthy (PInt i) = (i \<noteq> 0)"
| "truthy (PFloat f) = (f \<noteq> Finite 0)"

text \<open>\<open>a or b\<close>\<close>

definition py_or :: "pyval \<Rightarrow> pyval \<Rightarrow> pyval" where
  "py_or a b = (if truthy a then a else b)"

type_synonym metadata = "string \<rightharpoonup> pyval"

text \<open>\<open>meta.get(key)\<close> and \<open>meta.get(key, default)\<close>\<close>

definition meta_get :: "metadata \<Rightarrow> string \<Rightarrow> pyval" where
  "meta_get meta k = (case meta k of None \<Rightarrow> PNone | Some v \<Rightarrow> v)"

definition meta_get_default :: "metadata \<Rightarrow> string \<Rightarrow> pyval \<Rightarrow> pyval" where
  "meta_get_default meta k d = (case meta k of None \<Rightarrow> d | Some v \<Rightarrow> v)"

text \<open>What \<open>json.loads\<close> returns; an object is the list of its items in iteration order.\<close>

datatype json =
  JNull | JBool bool | JInt int | JFloat pyfloat | JStr string
  | JArr "json list" | JObj "(string \<times> json) list"

text \<open>
  The library functions the script calls and whose code is outside this repository's
  sources are parameters of the model:
  \<^item> \<open>json_loads\<close>: \<open>json.loads\<close>, with \<open>Inl\<close> the exception it raises
    (\<open>JSONDecodeError\<close> for a malformed text, but also a plain \<open>ValueError\<close> for an
    integer literal of too many digits, or \<open>RecursionError\<close>);
  \<^item> \<open>str_to_float\<close>, \<open>str_to_int\<close>: \<open>float(s)\<close> and \<open>int(s)\<close> of a string,
    \<open>None\<close> when they raise \<open>ValueError\<close>;
  \<^item> \<open>int_to_double\<close>: the double nearest to an integer, the value of \<open>float(i)\<close>
    when it does not overflow;
  \<^item> \<open>str_strip\<close>, \<open>str_lower\<close>: the methods \<open>strip()\<close> and \<open>lower()\<close> of \<open>str\<close>;
  \<^item> \<open>format_number\<close>: how an f-string renders a value that is not a string;
  \<^item> \<open>sqlite_text\<close>: the text SQLite stores for a number inserted into a column of
    \<open>TEXT\<close> affinity;
  \<^item> \<open>normalize_japanese\<close>: the normalizer of \<open>memory_mcp.normalizer\<close>;
  \<^item> \<open>model_encode\<close>: \<open>SentenceTransformer.encode(..., normalize_embeddings=True)\<close>
    followed by \<open>tolist()\<close>;
  \<^item> \<open>np_float32\<close>: the conversion of one component by \<open>np.array(vec, dtype=np.float32)\<close>,
    giving the bit pattern of the single-precision float.
\<close>

record externals =
  json_loads :: "string \<Rightarrow> py_error + json"
  str_to_float :: "string \<Rightarrow> pyfloat option"
  str_to_int :: "string \<Rightarrow> int option"
  int_to_double :: "int \<Rightarrow> real"
  str_strip :: "string \<Rightarrow> string"
  str_lower :: "string \<Rightarrow> string"
  format_number :: "pyval \<Rightarrow> string"
  sqlite_text :: "pyval \<Rightarrow> string"
  normalize_japanese :: "string \<Rightarrow> string"
  model_encode :: "string list \<Rightarrow> pyfloat list list"
  np_float32 :: "pyfloat \<Rightarrow> 32 word"

text \<open>
  \<open>float(i)\<close> of an \<open>int\<close> raises \<open>OverflowError\<close> when \<open>i\<close> rounds to a magnitude
  of \<open>2 ^ 1024\<close> or more.  Below that bound the result is the double nearest to \<open>i\<close>.
\<close>

definition float_of_int :: "externals \<Rightarrow> int \<Rightarrow> py_error + pyfloat" where
  "float_of_int ext i =
     (if \<bar>i\<bar> \<ge> 2 ^ 1024 - 2 ^ 970 then Inl OverflowError
      else Inr (Finite (int_to_double ext i)))"

text \<open>\<open>float(v)\<close> of a metadata value.\<close>

fun py_float :: "externals \<Rightarrow> pyval \<Rightarrow> py_error + pyfloat" where
  "py_float ext PNone = Inl TypeError"
| "py_float ext (PStr s) =
     (case str_to_float ext s of None \<Rightarrow> Inl ValueError | Some f \<Rightarrow> Inr f)"
| "py_float ext (PInt i) = float_of_int ext i"
| "py_float ext (PFloat f) = Inr f"

text \<open>\<open>int(v)\<close> of a metadata value; a finite float is truncated towards zero.\<close>

fun py_int :: "externals \<Rightarrow> pyval \<Rightarrow> py_error + int" where
  "py_int ext PNone = Inl TypeError"
| "py_int ext (PStr s) =
     (case str_to_int ext s of None \<Rightarrow> Inl ValueError | Some i \<Rightarrow> Inr i)"
| "py_int ext (PInt i) = Inr i"
| "py_int ext (PFloat (Finite r)) = Inr (if r < 0 then \<lceil>r\<rceil> else \<lfloor>r\<rfloor>)"
| "py_int ext (PFloat PosInf) = Inl OverflowError"
| "py_int ext (PFloat NegInf) = Inl OverflowError"
| "py_int ext (PFloat NaN) = Inl ValueError"

text \<open>\<open>float(weight)\<close> of a value of a parsed JSON object (\<open>bool\<close> is a subclass of \<open>int\<close>).\<close>

fun json_float :: "externals \<Rightarrow> json \<Rightarrow> py_error + pyfloat" where
  "json_float ext JNull = Inl TypeError"
| "json_float ext (JBool b) = Inr (Finite (if b then 1 else 0))"
| "json_float ext (JInt i) = float_of_int ext i"
| "json_float ext (JFloat f) = Inr f"
| "json_float ext (JStr s) =
     (case str_to_float ext s of None \<Rightarrow> Inl ValueError | Some f \<Rightarrow> Inr f)"
| "json_float ext (JArr xs) = Inl TypeError"
| "json_float ext (JObj kvs) = Inl TypeError"

section \<open>The record transformer: coactivation extraction\<close>

text \<open>Line 240: \<open>w = max(0.0, min(1.0, w))\<close>.\<close>

definition clamp_weight :: "pyfloat \<Rightarrow> pyfloat" where
  "clamp_weight w = py_max (Finite 0) (py_min (Finite 1) w)"

type_synonym coactivation_entry = "string \<times> string \<times> pyfloat"

text \<open>
  Lines 237--243, the loop over \<open>coact_dict.items()\<close>.  The result is the list
  \<open>coactivation_entries\<close> as the loop leaves it, and the exception that escapes the loop,
  if any: \<open>TypeError\<close> and \<open>ValueError\<close> are caught for the single entry, any other
  exception ends the loop.
\<close>

fun extract_items ::
  "externals \<Rightarrow> string \<Rightarrow> (string \<times> json) list \<Rightarrow> coactivation_entry list
     \<Rightarrow> coactivation_entry list \<times> py_error option" where
  "extract_items ext memory_id [] entries = (entries, None)"
| "extract_items ext memory_id ((target_id, weight) # rest) entries =
     (case json_float ext weight of
        Inr w \<Rightarrow> extract_items ext memory_id rest (entries @ [(memory_id, target_id, clamp_weight w)])
      | Inl e \<Rightarrow>
          if e = TypeError \<or> e = ValueError then extract_items ext memory_id rest entries
          else (entries, Some e))"

text \<open>
  Lines 230--245.  \<open>coact_raw\<close> is the popped value or \<open>""\<close>; a string is parsed, and only
  a parsed object (a \<open>dict\<close>) is iterated: a metadata value that is a number is no
  \<open>dict\<close>.  The outer handler catches \<open>JSONDecodeError\<close> and \<open>TypeError\<close>, whether
  \<open>json.loads\<close> or the loop raises it; any other exception leaves \<open>migrate\<close>.
\<close>

definition coact_raw :: "metadata \<Rightarrow> pyval" where
  "coact_raw meta = py_or (meta_get_default meta ''coactivation'' (PStr [])) (PStr [])"

definition extract_coactivation ::
  "externals \<Rightarrow> string \<Rightarrow> metadata \<Rightarrow> coactivation_entry list
     \<Rightarrow> coactivation_entry list \<times> py_error option" where
  "extract_coactivation ext memory_id meta entries =
     (if truthy (coact_raw meta) then
        (case coact_raw meta of
           PStr s \<Rightarrow>
             (case json_loads ext s of
                Inl e \<Rightarrow>
                  if e = JSONDecodeError \<or> e = TypeError then (entries, None)
                  else (entries, Some e)
              | Inr (JObj kvs) \<Rightarrow>
                  (case extract_items ext memory_id kvs entries of
                     (entries', Some e) \<Rightarrow>
                       if e = JSONDecodeError \<or> e = TypeError then (entries', None)
                       else (entries', Some e)
                   | r \<Rightarrow> r)
              | Inr _ \<Rightarrow> (entries, None))
         | _ \<Rightarrow> (entries, None))
      else (entries, None))"

section \<open>The destination store\<close>

text \<open>A cell of a destination table.\<close>

datatype sqlval = SNull | SInteger int | SReal pyfloat | SText string

text \<open>
  Binding a Python value to a parameter of a statement: an \<open>int\<close> outside the 64-bit
  range raises \<open>OverflowError\<close>; \<open>None\<close> and a NaN are bound as \<open>NULL\<close>.
\<close>

fun bindable :: "pyval \<Rightarrow> bool" where
  "bindable (PInt i) = (- (2 ^ 63) \<le> i \<and> i < 2 ^ 63)"
| "bindable _ = True"

fun bind_value :: "pyval \<Rightarrow> sqlval" where
  "bind_value PNone = SNull"
| "bind_value (PStr s) = SText s"
| "bind_value (PInt i) = SInteger i"
| "bind_value (PFloat f) = (if f = NaN then SNull else SReal f)"

text \<open>
  The value stored in a column of \<open>TEXT\<close> affinity: a number is converted into its
  text form.
\<close>

fun bind_text :: "externals \<Rightarrow> pyval \<Rightarrow> sqlval" where
  "bind_text ext PNone = SNull"
| "bind_text ext (PStr s) = SText s"
| "bind_text ext (PInt i) = SText (sqlite_text ext (PInt i))"
| "bind_text ext (PFloat f) = (if f = NaN then SNull else SText (sqlite_text ext (PFloat f)))"

text \<open>
  The columns of table \<open>memories\<close> (column \<open>id\<close> is \<open>memory_id\<close> here).  With cells of
  type \<open>pyval\<close> this is the parameter tuple of the \<open>INSERT\<close> of lines 264--285, with
  cells of type \<open>sqlval\<close> a stored row.
\<close>

record 'a memory_row =
  memory_id :: 'a
  content :: 'a
  normalized_content :: 'a
  timestamp :: 'a
  emotion :: 'a
  importance :: 'a
  category :: 'a
  access_count :: 'a
  last_accessed :: 'a
  linked_ids :: 'a
  episode_id :: 'a
  sensory_data :: 'a
  camera_position :: 'a
  tags :: 'a
  links :: 'a
  novelty_score :: 'a
  prediction_error :: 'a
  activation_count :: 'a
  last_activated :: 'a
  reading :: 'a

definition memory_cells :: "'a memory_row \<Rightarrow> 'a list" where
  "memory_cells r =
     [memory_id r, content r, normalized_content r, timestamp r, emotion r, importance r,
      category r, access_count r, last_accessed r, linked_ids r, episode_id r,
      sensory_data r, camera_position r, tags r, links r, novelty_score r,
      prediction_error r, activation_count r, last_activated r, reading r]"

text \<open>
  The row stored for a parameter tuple, by the affinity of each column (lines 30--51).
  The cells of the \<open>INTEGER\<close> and \<open>REAL\<close> columns are always an \<open>int\<close> and a \<open>float\<close>
  (lines 270--282), which those affinities leave as they are.
\<close>

definition bind_memory_row :: "externals \<Rightarrow> pyval memory_row \<Rightarrow> sqlval memory_row" where
  "bind_memory_row ext p =
     \<lparr>memory_id = bind_text ext (memory_id p), content = bind_text ext (content p),
      normalized_content = bind_text ext (normalized_content p),
      timestamp = bind_text ext (timestamp p), emotion = bind_text ext (emotion p),
      importance = bind_value (importance p), category = bind_text ext (category p),
      access_count = bind_value (access_count p),
      last_accessed = bind_text ext (last_accessed p),
      linked_ids = bind_text ext (linked_ids p),
      episode_id = bind_text ext (episode_id p),
      sensory_data = bind_text ext (sensory_data p),
      camera_position = bind_text ext (camera_position p), tags = bind_text ext (tags p),
      links = bind_text ext (links p), novelty_score = bind_value (novelty_score p),
      prediction_error = bind_value (prediction_error p),
      activation_count = bind_value (activation_count p),
      last_activated = bind_text ext (last_activated p),
      reading = bind_text ext (reading p)\<rparr>"

text \<open>The \<open>NOT NULL\<close> columns of \<open>memories\<close> (lines 30--51).\<close>

definition memory_not_null :: "sqlval memory_row \<Rightarrow> bool" where
  "memory_not_null r =
     (content r \<noteq> SNull \<and> normalized_content r \<noteq> SNull \<and> timestamp r \<noteq> SNull \<and>
      emotion r \<noteq> SNull \<and> importance r \<noteq> SNull \<and> category r \<noteq> SNull \<and>
      access_count r \<noteq> SNull \<and> last_accessed r \<noteq> SNull \<and> linked_ids r \<noteq> SNull \<and>
      sensory_data r \<noteq> SNull \<and> tags r \<noteq> SNull \<and> links r \<noteq> SNull \<and>
      novelty_score r \<noteq> SNull \<and> prediction_error r \<noteq> SNull \<and>
      activation_count r \<noteq> SNull \<and> last_activated r \<noteq> SNull)"

text \<open>The columns of table \<open>episodes\<close> (lines 71--82).\<close>

record 'a episode_row =
  ep_id :: 'a
  ep_title :: 'a
  ep_start_time :: 'a
  ep_end_time :: 'a
  ep_memory_ids :: 'a
  ep_participants :: 'a
  ep_location_context :: 'a
  ep_summary :: 'a
  ep_emotion :: 'a
  ep_importance :: 'a

definition episode_cells :: "'a episode_row \<Rightarrow> 'a list" where
  "episode_cells r =
     [ep_id r, ep_title r, ep_start_time r, ep_end_time r, ep_memory_ids r,
      ep_participants r, ep_location_context r, ep_summary r, ep_emotion r, ep_importance r]"

definition bind_episode_row :: "externals \<Rightarrow> pyval episode_row \<Rightarrow> sqlval episode_row" where
  "bind_episode_row ext p =
     \<lparr>ep_id = bind_text ext (ep_id p), ep_title = bind_text ext (ep_title p),
      ep_start_time = bind_text ext (ep_start_time p),
      ep_end_time = bind_text ext (ep_end_time p),
      ep_memory_ids = bind_text ext (ep_memory_ids p),
      ep_participants = bind_text ext (ep_participants p),
      ep_location_context = bind_text ext (ep_location_context p),
      ep_summary = bind_text ext (ep_summary p), ep_emotion = bind_text ext (ep_emotion p),
      ep_importance = bind_value (ep_importance p)\<rparr>"

definition episode_not_null :: "sqlval episode_row \<Rightarrow> bool" where
  "episode_not_null r =
     (ep_title r \<noteq> SNull \<and> ep_start_time r \<noteq> SNull \<and> ep_memory_ids r \<noteq> SNull \<and>
      ep_participants r \<noteq> SNull \<and> ep_summary r \<noteq> SNull \<and> ep_emotion r \<noteq> SNull \<and>
      ep_importance r \<noteq> SNull)"

text \<open>
  The four tables of the destination, each the list of its rows in insertion order.  A
  row of \<open>embeddings\<close> is \<open>(memory_id, vector)\<close>, a row of \<open>coactivation\<close> is
  \<open>(source_id, target_id, weight)\<close>.
\<close>

record dest_db =
  memories :: "sqlval memory_row list"
  embeddings :: "(string \<times> 8 word list) list"
  coactivation :: "coactivation_entry list"
  episodes :: "sqlval episode_row list"

text \<open>
  \<open>INSERT OR IGNORE INTO memories\<close>: a row that violates \<open>NOT NULL\<close> or whose primary
  key \<open>id\<close> is already present is skipped without an error.  The table has no foreign
  key of its own.
\<close>

definition insert_memory :: "sqlval memory_row \<Rightarrow> dest_db \<Rightarrow> dest_db" where
  "insert_memory r d =
     (if memory_not_null r \<and> memory_id r \<notin> memory_id ` set (memories d)
      then d\<lparr>memories := memories d @ [r]\<rparr> else d)"

text \<open>
  \<open>INSERT OR IGNORE INTO embeddings\<close>: a present primary key \<open>memory_id\<close> skips the row;
  for a row that is inserted the foreign key to \<open>memories(id)\<close> is enforced
  (\<open>PRAGMA foreign_keys = ON\<close>), and its violation is an error that \<open>OR IGNORE\<close> does not
  cover.
\<close>

definition insert_embedding :: "string \<Rightarrow> 8 word list \<Rightarrow> dest_db \<Rightarrow> py_error + dest_db" where
  "insert_embedding mid vec d =
     (if mid \<in> fst ` set (embeddings d) then Inr d
      else if SText mid \<in> memory_id ` set (memories d)
      then Inr (d\<lparr>embeddings := embeddings d @ [(mid, vec)]\<rparr>)
      else Inl IntegrityError)"

text \<open>
  \<open>INSERT OR IGNORE INTO coactivation\<close>: the weight is \<open>NOT NULL\<close> (a NaN is bound as
  \<open>NULL\<close>) and checked to lie in \<open>[0, 1]\<close>; the primary key is \<open>(source_id, target_id)\<close>;
  both ids are foreign keys to \<open>memories(id)\<close>.
\<close>

fun weight_ok :: "pyfloat \<Rightarrow> bool" where
  "weight_ok (Finite r) = (0 \<le> r \<and> r \<le> 1)"
| "weight_ok _ = False"

definition edge_key :: "coactivation_entry \<Rightarrow> string \<times> string" where
  "edge_key e = (fst e, fst (snd e))"

definition insert_coactivation :: "coactivation_entry \<Rightarrow> dest_db \<Rightarrow> py_error + dest_db" where
  "insert_coactivation e d =
     (if \<not> weight_ok (snd (snd e)) \<or> edge_key e \<in> edge_key ` set (coactivation d) then Inr d
      else if SText (fst e) \<in> memory_id ` set (memories d) \<and>
              SText (fst (snd e)) \<in> memory_id ` set (memories d)
      then Inr (d\<lparr>coactivation := coactivation d @ [e]\<rparr>)
      else Inl IntegrityError)"

text \<open>\<open>INSERT OR IGNORE INTO episodes\<close>: \<open>NOT NULL\<close> columns and the primary key \<open>id\<close>.\<close>

definition insert_episode :: "sqlval episode_row \<Rightarrow> dest_db \<Rightarrow> dest_db" where
  "insert_episode r d =
     (if episode_not_null r \<and> ep_id r \<notin> ep_id ` set (episodes d)
      then d\<lparr>episodes := episodes d @ [r]\<rparr> else d)"

section \<open>The record transformer: the memory row\<close>

text \<open>A record as \<open>_read_chroma_collection\<close> returns it (key \<open>id\<close> is \<open>rec_id\<close>).\<close>

record source_record =
  rec_id :: string
  document :: string
  metadata :: metadata

text \<open>Line 230: \<open>meta\<close> after \<open>meta.pop("coactivation", "")\<close>.\<close>

definition meta_popped :: "source_record \<Rightarrow> metadata" where
  "meta_popped rec = (metadata rec)(''coactivation'' := None)"

text \<open>Line 248: \<open>original_content = meta.get("content") or doc\<close>.\<close>

definition original_content :: "source_record \<Rightarrow> pyval" where
  "original_content rec = py_or (meta_get (meta_popped rec) ''content'') (PStr (document rec))"

text \<open>Lines 249--251.\<close>

definition episode_id_of :: "source_record \<Rightarrow> pyval" where
  "episode_id_of rec =
     (let episode_id = py_or (meta_get (meta_popped rec) ''episode_id'') PNone
      in if episode_id = PStr [] then PNone else episode_id)"

text \<open>Line 253: \<open>normalized = normalize_japanese(doc) if doc else ""\<close>.\<close>

definition normalized :: "externals \<Rightarrow> source_record \<Rightarrow> string" where
  "normalized ext rec =
     (if document rec \<noteq> [] then normalize_japanese ext (document rec) else [])"

text \<open>
  Lines 264--285: the parameter tuple, evaluated from left to right; the first coercion
  that raises ends the evaluation.
\<close>

definition memory_params :: "externals \<Rightarrow> source_record \<Rightarrow> py_error + pyval memory_row" where
  "memory_params ext rec =
     (let meta = meta_popped rec in
      case py_int ext (meta_get_default meta ''importance'' (PInt 3)) of
        Inl e \<Rightarrow> Inl e
      | Inr imp \<Rightarrow>
      case py_int ext (meta_get_default meta ''access_count'' (PInt 0)) of
        Inl e \<Rightarrow> Inl e
      | Inr acc \<Rightarrow>
      case py_float ext (meta_get_default meta ''novelty_score'' (PFloat (Finite 0))) of
        Inl e \<Rightarrow> Inl e
      | Inr nov \<Rightarrow>
      case py_float ext (meta_get_default meta ''prediction_error'' (PFloat (Finite 0))) of
        Inl e \<Rightarrow> Inl e
      | Inr perr \<Rightarrow>
      case py_int ext (meta_get_default meta ''activation_count'' (PInt 0)) of
        Inl e \<Rightarrow> Inl e
      | Inr act \<Rightarrow>
        Inr \<lparr>memory_id = PStr (rec_id rec),
             content = original_content rec,
             normalized_content = PStr (normalized ext rec),
             timestamp = meta_get_default meta ''timestamp'' (PStr []),
             emotion = meta_get_default meta ''emotion'' (PStr ''neutral''),
             importance = PInt imp,
             category = meta_get_default meta ''category'' (PStr ''daily''),
             access_count = PInt acc,
             last_accessed = meta_get_default meta ''last_accessed'' (PStr []),
             linked_ids = meta_get_default meta ''linked_ids'' (PStr []),
             episode_id = episode_id_of rec,
             sensory_data = meta_get_default meta ''sensory_data'' (PStr []),
             camera_position = py_or (meta_get meta ''camera_position'') PNone,
             tags = meta_get_default meta ''tags'' (PStr []),
             links = meta_get_default meta ''links'' (PStr []),
             novelty_score = PFloat nov,
             prediction_error = PFloat perr,
             activation_count = PInt act,
             last_activated = meta_get_default meta ''last_activated'' (PStr []),
             reading = py_or (meta_get meta ''reading'') PNone\<rparr>)"

text \<open>
  Lines 256--286, the body of the \<open>try\<close> up to the \<open>execute\<close>: the row the statement
  is run with, or the exception raised by a coercion or by the binding of a parameter.
\<close>

definition memory_insert_row :: "externals \<Rightarrow> source_record \<Rightarrow> py_error + sqlval memory_row" where
  "memory_insert_row ext rec =
     (case memory_params ext rec of
        Inl e \<Rightarrow> Inl e
      | Inr p \<Rightarrow>
          if list_all bindable (memory_cells p) then Inr (bind_memory_row ext p)
          else Inl OverflowError)"

text \<open>Line 289: \<open>normalized or original_content\<close>.\<close>

definition doc_to_embed :: "externals \<Rightarrow> source_record \<Rightarrow> pyval" where
  "doc_to_embed ext rec = py_or (PStr (normalized ext rec)) (original_content rec)"

text \<open>
  The state of the loop over the records (lines 210--292): the connection to the
  destination, the four accumulators, and the warnings printed (the id of the record and
  the exception).
\<close>

record loop_state =
  conn :: dest_db
  memory_ids_in_dest :: "string set"
  coactivation_entries :: "coactivation_entry list"
  docs_to_embed :: "pyval list"
  valid_records :: "source_record list"
  warnings :: "(string \<times> py_error) list"

text \<open>
  One iteration of the loop, lines 224--292.  \<open>Inl\<close> is an exception that no handler
  of the script catches.
\<close>

definition migrate_record :: "externals \<Rightarrow> source_record \<Rightarrow> loop_state \<Rightarrow> py_error + loop_state" where
  "migrate_record ext rec st =
     (case extract_coactivation ext (rec_id rec) (metadata rec) (coactivation_entries st) of
        (entries, Some e) \<Rightarrow> Inl e
      | (entries, None) \<Rightarrow>
          (case memory_insert_row ext rec of
             Inl e \<Rightarrow>
               Inr (st\<lparr>coactivation_entries := entries,
                       warnings := warnings st @ [(rec_id rec, e)]\<rparr>)
           | Inr row \<Rightarrow>
               Inr (st\<lparr>conn := insert_memory row (conn st),
                       coactivation_entries := entries,
                       memory_ids_in_dest := insert (rec_id rec) (memory_ids_in_dest st),
                       valid_records := valid_records st @ [rec],
                       docs_to_embed := docs_to_embed st @ [doc_to_embed ext rec]\<rparr>)))"

fun migrate_records :: "externals \<Rightarrow> source_record list \<Rightarrow> loop_state \<Rightarrow> py_error + loop_state" where
  "migrate_records ext [] st = Inr st"
| "migrate_records ext (rec # recs) st =
     (case migrate_record ext rec st of
        Inl e \<Rightarrow> Inl e
      | Inr st' \<Rightarrow> migrate_records ext recs st')"

section \<open>The embedding recomputation engine\<close>

text \<open>An f-string field \<open>{doc}\<close>.\<close>

definition py_format :: "externals \<Rightarrow> pyval \<Rightarrow> string" where
  "py_format ext v = (case v of PStr s \<Rightarrow> s | _ \<Rightarrow> format_number ext v)"

text \<open>\<open>E5EmbeddingFunction.__call__\<close> (embedding.py, lines 60--76), the model loaded.\<close>

definition ef :: "externals \<Rightarrow> pyval list \<Rightarrow> pyfloat list list" where
  "ef ext input = model_encode ext (map (\<lambda>doc. ''passage: '' @ py_format ext doc) input)"

text \<open>
  Modelled from the spec: \<open>encode_vector\<close> of \<open>memory_mcp.vector\<close>, whose source is not
  among the files at hand, and its inverse.  A vector of N single-precision floats, each
  given by its 32-bit pattern, is the contiguous little-endian blob of its 4 N bytes.
\<close>

definition encode_float32 :: "32 word \<Rightarrow> 8 word list" where
  "encode_float32 w =
     [ucast w, ucast (drop_bit 8 w), ucast (drop_bit 16 w), ucast (drop_bit 24 w)]"

definition encode_vector :: "32 word list \<Rightarrow> 8 word list" where
  "encode_vector v = concat (map encode_float32 v)"

text \<open>
  Modelled from the spec: the decoder of the vector codec.  A blob whose length is no
  multiple of four is the image of no vector: \<open>None\<close>.
\<close>

fun decode_vector :: "8 word list \<Rightarrow> 32 word list option" where
  "decode_vector [] = Some []"
| "decode_vector (b0 # b1 # b2 # b3 # bs) =
     (case decode_vector bs of
        None \<Rightarrow> None
      | Some v \<Rightarrow>
          Some ((ucast b0 OR push_bit 8 (ucast b1) OR push_bit 16 (ucast b2)
                 OR push_bit 24 (ucast b3)) # v))"
| "decode_vector _ = None"

text \<open>Line 308: \<open>encode_vector(np.array(vec, dtype=np.float32))\<close>.\<close>

definition vec_bytes :: "externals \<Rightarrow> pyfloat list \<Rightarrow> 8 word list" where
  "vec_bytes ext vec = encode_vector (map (np_float32 ext) vec)"

text \<open>
  Lines 305--312, the loop over \<open>zip(batch_recs, batch_vecs)\<close>; the foreign-key error of
  an insert is caught nowhere.
\<close>

fun embed_batch ::
  "externals \<Rightarrow> string set \<Rightarrow> (source_record \<times> pyfloat list) list \<Rightarrow> dest_db \<Rightarrow> py_error + dest_db" where
  "embed_batch ext ids [] d = Inr d"
| "embed_batch ext ids ((rec, vec) # rest) d =
     (if rec_id rec \<in> ids then
        (case insert_embedding (rec_id rec) (vec_bytes ext vec) d of
           Inl e \<Rightarrow> Inl e
         | Inr d' \<Rightarrow> embed_batch ext ids rest d')
      else embed_batch ext ids rest d)"

definition batch_size :: nat where
  "batch_size = 32"

text \<open>
  Lines 301--315, over the indices \<open>range(0, total, batch_size)\<close>.  Each batch is
  committed; the result is the exception that ended the loop, if any, and the
  destination as last committed.
\<close>

fun embed_batches ::
  "externals \<Rightarrow> loop_state \<Rightarrow> nat list \<Rightarrow> dest_db \<Rightarrow> py_error option \<times> dest_db" where
  "embed_batches ext st [] d = (None, d)"
| "embed_batches ext st (i # is) d =
     (let batch_recs = take batch_size (drop i (valid_records st));
          batch_docs = take batch_size (drop i (docs_to_embed st));
          batch_vecs = ef ext batch_docs
      in case embed_batch ext (memory_ids_in_dest st) (zip batch_recs batch_vecs) d of
           Inl e \<Rightarrow> (Some e, d)
         | Inr d' \<Rightarrow> embed_batches ext st is d')"

text \<open>\<open>range(0, n, step)\<close> for a positive \<open>step\<close>\<close>

definition py_range_step :: "nat \<Rightarrow> nat \<Rightarrow> nat list" where
  "py_range_step n step = map (\<lambda>k. k * step) [0..<(n + step - 1) div step]"

definition recompute_embeddings :: "externals \<Rightarrow> loop_state \<Rightarrow> py_error option \<times> dest_db" where
  "recompute_embeddings ext st =
     embed_batches ext st (py_range_step (length (valid_records st)) batch_size) (conn st)"

section \<open>The graph reconciler\<close>

text \<open>
  Lines 320--330: an entry passes the gate when both ids are in \<open>memory_ids_in_dest\<close>;
  any exception of the insert is caught and the entry is passed over.
\<close>

definition reconcile_entry :: "string set \<Rightarrow> coactivation_entry \<Rightarrow> dest_db \<Rightarrow> dest_db" where
  "reconcile_entry ids e d =
     (if fst e \<in> ids \<and> fst (snd e) \<in> ids then
        (case insert_coactivation e d of Inl err \<Rightarrow> d | Inr d' \<Rightarrow> d')
      else d)"

definition reconcile :: "string set \<Rightarrow> coactivation_entry list \<Rightarrow> dest_db \<Rightarrow> dest_db" where
  "reconcile ids entries d = fold (reconcile_entry ids) entries d"

section \<open>The episode migrator\<close>

text \<open>Lines 343--345.\<close>

definition end_time_of :: "source_record \<Rightarrow> pyval" where
  "end_time_of rec =
     (let end_time = py_or (meta_get (metadata rec) ''end_time'') PNone
      in if end_time = PStr [] then PNone else end_time)"

text \<open>Lines 352--363: the parameter tuple of the episode \<open>INSERT\<close>.\<close>

definition episode_params :: "externals \<Rightarrow> source_record \<Rightarrow> py_error + pyval episode_row" where
  "episode_params ext rec =
     (let meta = metadata rec in
      case py_int ext (meta_get_default meta ''importance'' (PInt 3)) of
        Inl e \<Rightarrow> Inl e
      | Inr imp \<Rightarrow>
        Inr \<lparr>ep_id = PStr (rec_id rec),
             ep_title = meta_get_default meta ''title'' (PStr []),
             ep_start_time = meta_get_default meta ''start_time'' (PStr []),
             ep_end_time = end_time_of rec,
             ep_memory_ids = meta_get_default meta ''memory_ids'' (PStr []),
             ep_participants = meta_get_default meta ''participants'' (PStr []),
             ep_location_context = py_or (meta_get meta ''location_context'') PNone,
             ep_summary = PStr (document rec),
             ep_emotion = meta_get_default meta ''emotion'' (PStr ''neutral''),
             ep_importance = PInt imp\<rparr>)"

definition episode_insert_row :: "externals \<Rightarrow> source_record \<Rightarrow> py_error + sqlval episode_row" where
  "episode_insert_row ext rec =
     (case episode_params ext rec of
        Inl e \<Rightarrow> Inl e
      | Inr p \<Rightarrow>
          if list_all bindable (episode_cells p) then Inr (bind_episode_row ext p)
          else Inl OverflowError)"

text \<open>
  Lines 339--367, one iteration: every exception is caught and printed as a warning.
  The state is the destination and the warnings printed so far.
\<close>

definition migrate_episode ::
  "externals \<Rightarrow> source_record \<Rightarrow> dest_db \<times> (string \<times> py_error) list
     \<Rightarrow> dest_db \<times> (string \<times> py_error) list" where
  "migrate_episode ext rec s =
     (case episode_insert_row ext rec of
        Inl e \<Rightarrow> (fst s, snd s @ [(rec_id rec, e)])
      | Inr row \<Rightarrow> (insert_episode row (fst s), snd s))"

definition migrate_episodes ::
  "externals \<Rightarrow> source_record list \<Rightarrow> dest_db \<Rightarrow> dest_db \<times> (string \<times> py_error) list" where
  "migrate_episodes ext recs d = fold (migrate_episode ext) recs (d, [])"

section \<open>The foreign-store reader\<close>

text \<open>
  The tables of \<open>chroma.sqlite3\<close> the script reads, with the columns it selects:
  \<open>collections (id, name)\<close>, \<open>segments (id, collection, scope)\<close>,
  \<open>embeddings (id, segment_id, embedding_id)\<close> and
  \<open>embedding_metadata (id, key, string_value, int_value, float_value)\<close>.  A table is
  the list of its rows in the order a \<open>SELECT\<close> returns them.
\<close>

record chroma_db =
  collections :: "(string \<times> string) list"
  segments :: "(string \<times> string \<times> string) list"
  chroma_embeddings :: "(int \<times> string \<times> string) list"
  embedding_metadata :: "(int \<times> string \<times> string option \<times> int option \<times> pyfloat option) list"

text \<open>Lines 131--141: the metadata mapping and the document of one embedding row.\<close>

fun read_metadata ::
  "(string \<times> string option \<times> int option \<times> pyfloat option) list \<Rightarrow> metadata \<times> string
     \<Rightarrow> metadata \<times> string" where
  "read_metadata [] acc = acc"
| "read_metadata ((k, str_val, int_val, float_val) # rows) (meta, doc) =
     read_metadata rows
       (if k = ''chroma:document'' then
          (meta, (case str_val of None \<Rightarrow> [] | Some s \<Rightarrow> s))
        else case str_val of
          Some s \<Rightarrow> (meta(k \<mapsto> PStr s), doc)
        | None \<Rightarrow>
            (case int_val of
               Some i \<Rightarrow> (meta(k \<mapsto> PInt i), doc)
             | None \<Rightarrow>
                 (case float_val of
                    Some f \<Rightarrow> (meta(k \<mapsto> PFloat f), doc)
                  | None \<Rightarrow> (meta, doc))))"

text \<open>\<open>_read_chroma_collection\<close>, lines 91--151.\<close>

definition read_chroma_collection :: "chroma_db \<Rightarrow> string \<Rightarrow> source_record list" where
  "read_chroma_collection chroma collection_name =
     (case find (\<lambda>(cid, name). name = collection_name) (collections chroma) of
        None \<Rightarrow> []
      | Some (collection_id, _) \<Rightarrow>
          (case find (\<lambda>(sid, col, scope). col = collection_id \<and> scope = ''METADATA'')
                  (segments chroma) of
             None \<Rightarrow> []
           | Some (segment_id, _) \<Rightarrow>
               map (\<lambda>(row_id, _, embedding_id).
                      let meta_rows = map snd (filter (\<lambda>r. fst r = row_id) (embedding_metadata chroma));
                          (meta, doc) = read_metadata meta_rows (Map.empty, [])
                      in \<lparr>rec_id = embedding_id, document = doc, metadata = meta\<rparr>)
                   (filter (\<lambda>(row_id, seg, embedding_id). seg = segment_id)
                      (chroma_embeddings chroma))))"

section \<open>The orchestrator\<close>

text \<open>
  What the run of \<open>migrate\<close> depends on besides the destination: whether \<open>numpy\<close>
  imports (\<open>Some msg\<close> is the \<open>ImportError\<close> with its message), the expanded source
  path, the database \<open>chroma.sqlite3\<close> (\<open>None\<close> when the file does not exist), the line
  the user types at the prompt, whether the imports of lines 191--195 and the loading of
  the embedding model raise, and the library functions.
\<close>

record world =
  numpy_import_error :: "string option"
  source_path :: string
  chroma_sqlite :: "chroma_db option"
  answer :: string
  model_load_error :: "py_error option"
  libs :: externals

text \<open>Line 185: \<open>answer = input("Proceed with migration? [y/N] ").strip().lower()\<close>.\<close>

definition stripped_answer :: "world \<Rightarrow> string" where
  "stripped_answer w = str_lower (libs w) (str_strip (libs w) (answer w))"

text \<open>
  How the process ends: \<open>sys.exit(status)\<close> after the given diagnostic lines, an
  exception that no handler catches (the interpreter then ends with a traceback), or the
  normal return of \<open>migrate\<close>.
\<close>

datatype outcome = SysExit int "string list" | Uncaught py_error | Returned

text \<open>
  The exit status of the process: the argument of \<open>sys.exit\<close>; 1 when the interpreter
  ends on an uncaught exception; 0 when \<open>main\<close> returns.
\<close>

fun exit_status :: "outcome \<Rightarrow> int" where
  "exit_status (SysExit status msgs) = status"
| "exit_status (Uncaught e) = 1"
| "exit_status Returned = 0"

text \<open>
  Lines 216--332, the memories collection: the loop over the records (committed at line
  294), the embeddings, the coactivation edges.
\<close>

definition initial_state :: "dest_db \<Rightarrow> loop_state" where
  "initial_state d =
     \<lparr>conn = d, memory_ids_in_dest = {}, coactivation_entries = [], docs_to_embed = [],
      valid_records = [], warnings = []\<rparr>"

definition migrate_memories :: "externals \<Rightarrow> source_record list \<Rightarrow> dest_db \<Rightarrow> outcome \<times> dest_db" where
  "migrate_memories ext recs d =
     (case migrate_records ext recs (initial_state d) of
        Inl e \<Rightarrow> (Uncaught e, d)
      | Inr st \<Rightarrow>
          (case recompute_embeddings ext st of
             (Some e, d') \<Rightarrow> (Uncaught e, d')
           | (None, d') \<Rightarrow>
               (Returned, reconcile (memory_ids_in_dest st) (coactivation_entries st) d')))"

text \<open>Lines 335--369.\<close>

definition migrate_episodes_collection :: "externals \<Rightarrow> chroma_db \<Rightarrow> dest_db \<Rightarrow> dest_db" where
  "migrate_episodes_collection ext chroma d =
     (if ''episodes'' \<in> set (map snd (collections chroma))
      then fst (migrate_episodes ext (read_chroma_collection chroma ''episodes'') d)
      else d)"

text \<open>
  \<open>migrate\<close>, lines 154--374.  The second component is the content of the destination
  when the process ends: what was last committed.
\<close>

definition migrate :: "world \<Rightarrow> dest_db \<Rightarrow> outcome \<times> dest_db" where
  "migrate w d =
     (case numpy_import_error w of
        Some msg \<Rightarrow> (SysExit 1 [''Error: '' @ msg, ''Install numpy: uv add numpy''], d)
      | None \<Rightarrow>
     (case chroma_sqlite w of
        None \<Rightarrow> (SysExit 1 [''Error: chroma.sqlite3 not found in '' @ source_path w], d)
      | Some chroma \<Rightarrow>
     (let collection_names = map snd (collections chroma) in
      if stripped_answer w \<noteq> ''y'' then (SysExit 0 [''Aborted.''], d)
      else
     (case model_load_error w of
        Some e \<Rightarrow> (Uncaught e, d)
      | None \<Rightarrow>
     (case (case find (\<lambda>n. n \<noteq> ''episodes'') collection_names of
              None \<Rightarrow> (Returned, d)
            | Some memories_collection_name \<Rightarrow>
                if memories_collection_name \<noteq> [] then
                  migrate_memories (libs w)
                    (read_chroma_collection chroma memories_collection_name) d
                else (Returned, d)) of
        (Returned, d') \<Rightarrow> (Returned, migrate_episodes_collection (libs w) chroma d')
      | r \<Rightarrow> r)))))"

section \<open>Sample inputs\<close>

text \<open>
  Concrete library functions, defined on the few arguments the examples below use: three
  JSON texts, two numerals, the conversion of small integers, \<open>strip\<close> and \<open>lower\<close> on
  ASCII text, a normalizer that removes blanks, and an encoder that maps every text to the
  unit vector \<open>[1.0, 0.0]\<close>.
\<close>

definition is_space :: "char \<Rightarrow> bool" where
  "is_space c = (let n = (of_char c :: nat) in n = 32 \<or> (9 \<le> n \<and> n \<le> 13) \<or> (28 \<le> n \<and> n \<le> 31))"

definition ascii_strip :: "string \<Rightarrow> string" where
  "ascii_strip s = rev (dropWhile is_space (rev (dropWhile is_space s)))"

definition ascii_lower :: "string \<Rightarrow> string" where
  "ascii_lower s =
     map (\<lambda>c. let n = (of_char c :: nat) in if 65 \<le> n \<and> n \<le> 90 then char_of (n + 32) else c) s"

definition sample_json_loads :: "string \<Rightarrow> py_error + json" where
  "sample_json_loads s =
     (if s = ''{\"id2\": 0.95}'' then Inr (JObj [(''id2'', JFloat (Finite 0.95))])
      else if s = ''{\"id2\": 1.7, \"id3\": \"n/a\", \"id9\": -0.3, \"id4\": null}'' then
        Inr (JObj [(''id2'', JFloat (Finite 1.7)), (''id3'', JStr ''n/a''),
                   (''id9'', JFloat (Finite (- 0.3))), (''id4'', JNull)])
      else if s = ''{\"id7\": 1'' @ replicate 400 CHR ''0'' @ ''}'' then
        Inr (JObj [(''id7'', JInt (10 ^ 400))])
      else Inl JSONDecodeError)"

definition sample_externals :: externals where
  "sample_externals =
     \<lparr>json_loads = sample_json_loads,
      str_to_float = (\<lambda>s. if s = ''0.5'' then Some (Finite 0.5) else None),
      str_to_int = (\<lambda>s. if s = ''4'' then Some 4 else None),
      int_to_double = of_int,
      str_strip = ascii_strip,
      str_lower = ascii_lower,
      format_number = (\<lambda>v. ''0''),
      sqlite_text = (\<lambda>v. ''0''),
      normalize_japanese = filter (\<lambda>c. c \<noteq> CHR '' ''),
      model_encode = map (\<lambda>s. [Finite 1, Finite 0]),
      np_float32 = (\<lambda>f. if f = Finite 1 then 0x3F800000 else 0)\<rparr>"

text \<open>An empty destination, and records as the reader returns them.\<close>

definition empty_db :: dest_db where
  "empty_db = \<lparr>memories = [], embeddings = [], coactivation = [], episodes = []\<rparr>"

definition rec_walk :: source_record where
  "rec_walk =
     \<lparr>rec_id = ''id1'', document = ''a walk'',
      metadata = [''coactivation'' \<mapsto> PStr ''{\"id2\": 0.95}'']\<rparr>"

definition rec_tea :: source_record where
  "rec_tea =
     \<lparr>rec_id = ''id2'', document = ''tea'',
      metadata = [''content'' \<mapsto> PStr ''Tea with Mika'', ''importance'' \<mapsto> PInt 4,
                  ''emotion'' \<mapsto> PStr ''happy'']\<rparr>"

definition rec_bad_importance :: source_record where
  "rec_bad_importance =
     \<lparr>rec_id = ''id3'', document = ''rain'',
      metadata = [''importance'' \<mapsto> PStr ''high'',
                  ''coactivation'' \<mapsto> PStr ''{\"id2\": 0.95}'']\<rparr>"

definition rec_empty_content :: source_record where
  "rec_empty_content =
     \<lparr>rec_id = ''id4'', document = ''hello'', metadata = [''content'' \<mapsto> PStr []]\<rparr>"


definition rec_huge_weight :: source_record where
  "rec_huge_weight =
     \<lparr>rec_id = ''id1'', document = ''a walk'',
      metadata = [''coactivation'' \<mapsto> PStr (''{\"id7\": 1'' @ replicate 400 CHR ''0'' @ ''}'')]\<rparr>"

text \<open>
  A source with the collection \<open>memA\<close> of two documents, the first with the coactivation
  mapping \<open>{"id2": 0.95}\<close>, and the collection \<open>episodes\<close> of one record.
\<close>

definition sample_chroma :: chroma_db where
  "sample_chroma =
     \<lparr>collections = [(''c1'', ''memA''), (''c2'', ''episodes'')],
      segments = [(''s0'', ''c1'', ''VECTOR''), (''s1'', ''c1'', ''METADATA''),
                  (''s2'', ''c2'', ''METADATA'')],
      chroma_embeddings = [(1, ''s1'', ''id1''), (2, ''s1'', ''id2''), (3, ''s2'', ''ep1'')],
      embedding_metadata =
        [(1, ''chroma:document'', Some ''a walk'', None, None),
         (1, ''coactivation'', Some ''{\"id2\": 0.95}'', None, None),
         (2, ''chroma:document'', Some ''tea'', None, None),
         (2, ''content'', Some ''Tea with Mika'', None, None),
         (2, ''importance'', None, Some 4, None),
         (2, ''emotion'', Some ''happy'', None, None),
         (3, ''chroma:document'', Some ''a quiet morning'', None, None),
         (3, ''title'', Some ''Morning'', None, None),
         (3, ''start_time'', Some ''2025-01-01T08:00:00'', None, None)]\<rparr>"

definition sample_world :: world where
  "sample_world =
     \<lparr>numpy_import_error = None, source_path = ''/home/u/.claude/memories/chroma'',
      chroma_sqlite = Some sample_chroma, answer = ''y'', model_load_error = None,
      libs = sample_externals\<rparr>"

section \<open>Auxiliary notions\<close>

text \<open>
  The records of a list for which the body of the \<open>try\<close> of lines 255--289 completes,
  the rows their inserts are run with, the triples extracted from a list of records, and
  the warnings printed for it.
\<close>

definition inserted_records :: "externals \<Rightarrow> source_record list \<Rightarrow> source_record list" where
  "inserted_records ext recs = filter (\<lambda>r. \<not> isl (memory_insert_row ext r)) recs"

definition rows_of :: "externals \<Rightarrow> source_record list \<Rightarrow> sqlval memory_row list" where
  "rows_of ext recs = map (\<lambda>r. projr (memory_insert_row ext r)) (inserted_records ext recs)"

definition entries_of :: "externals \<Rightarrow> source_record list \<Rightarrow> coactivation_entry list" where
  "entries_of ext recs =
     concat (map (\<lambda>r. fst (extract_coactivation ext (rec_id r) (metadata r) [])) recs)"

definition warnings_of :: "externals \<Rightarrow> source_record list \<Rightarrow> (string \<times> py_error) list" where
  "warnings_of ext recs =
     map (\<lambda>r. (rec_id r, projl (memory_insert_row ext r)))
       (filter (\<lambda>r. isl (memory_insert_row ext r)) recs)"

text \<open>The state the loop over a list of records leads to when no exception escapes it.\<close>

definition loop_result :: "externals \<Rightarrow> source_record list \<Rightarrow> loop_state \<Rightarrow> loop_state" where
  "loop_result ext recs st =
     st\<lparr>conn := fold insert_memory (rows_of ext recs) (conn st),
        memory_ids_in_dest := memory_ids_in_dest st \<union> rec_id ` set (inserted_records ext recs),
        coactivation_entries := coactivation_entries st @ entries_of ext recs,
        docs_to_embed := docs_to_embed st @ map (doc_to_embed ext) (inserted_records ext recs),
        valid_records := valid_records st @ inserted_records ext recs,
        warnings := warnings st @ warnings_of ext recs\<rparr>"

text \<open>The rows the two sample documents are inserted with.\<close>

definition row_walk :: "sqlval memory_row" where
  "row_walk =
     \<lparr>memory_id = SText ''id1'', content = SText ''a walk'',
      normalized_content = SText ''awalk'', timestamp = SText [],
      emotion = SText ''neutral'', importance = SInteger 3, category = SText ''daily'',
      access_count = SInteger 0, last_accessed = SText [], linked_ids = SText [],
      episode_id = SNull, sensory_data = SText [], camera_position = SNull,
      tags = SText [], links = SText [], novelty_score = SReal (Finite 0),
      prediction_error = SReal (Finite 0), activation_count = SInteger 0,
      last_activated = SText [], reading = SNull\<rparr>"

definition row_tea :: "sqlval memory_row" where
  "row_tea =
     \<lparr>memory_id = SText ''id2'', content = SText ''Tea with Mika'',
      normalized_content = SText ''tea'', timestamp = SText [],
      emotion = SText ''happy'', importance = SInteger 4, category = SText ''daily'',
      access_count = SInteger 0, last_accessed = SText [], linked_ids = SText [],
      episode_id = SNull, sensory_data = SText [], camera_position = SNull,
      tags = SText [], links = SText [], novelty_score = SReal (Finite 0),
      prediction_error = SReal (Finite 0), activation_count = SInteger 0,
      last_activated = SText [], reading = SNull\<rparr>"

text \<open>A record whose document normalizes to the empty string.\<close>

definition rec_blank :: source_record where
  "rec_blank =
     \<lparr>rec_id = ''id5'', document = '' '', metadata = [''content'' \<mapsto> PStr ''(silence)'']\<rparr>"

text \<open>
  Insert-or-ignore on a table given as the list of its rows: a row that fails the check
  \<open>ok\<close> or whose key is present leaves the table as it is.
\<close>

definition ioi :: "('r \<Rightarrow> bool) \<Rightarrow> ('r \<Rightarrow> 'k) \<Rightarrow> 'r \<Rightarrow> 'r list \<Rightarrow> 'r list" where
  "ioi ok key r t = (if ok r \<and> key r \<notin> key ` set t then t @ [r] else t)"

text \<open>
  The check an entry passes to be inserted by the graph reconciler, given the ids
  admitted and the rows of \<open>memories\<close>; the rows the episode inserts are run with.
\<close>

definition edge_ok :: "string set \<Rightarrow> sqlval memory_row list \<Rightarrow> coactivation_entry \<Rightarrow> bool" where
  "edge_ok ids mems e =
     (fst e \<in> ids \<and> fst (snd e) \<in> ids \<and> weight_ok (snd (snd e)) \<and>
      SText (fst e) \<in> memory_id ` set mems \<and> SText (fst (snd e)) \<in> memory_id ` set mems)"

definition episode_rows_of :: "externals \<Rightarrow> source_record list \<Rightarrow> sqlval episode_row list" where
  "episode_rows_of ext recs =
     map (\<lambda>r. projr (episode_insert_row ext r))
       (filter (\<lambda>r. \<not> isl (episode_insert_row ext r)) recs)"

text \<open>
  The rows a batch of the embedding stage inserts, and the list of pairs the loop of
  lines 305--312 runs over in the batch that starts at index \<open>i\<close>.
\<close>

definition embedding_rows ::
  "externals \<Rightarrow> string set \<Rightarrow> (source_record \<times> pyfloat list) list \<Rightarrow> (string \<times> 8 word list) list" where
  "embedding_rows ext ids zs =
     map (\<lambda>z. (rec_id (fst z), vec_bytes ext (snd z))) (filter (\<lambda>z. rec_id (fst z) \<in> ids) zs)"

definition batch_zip :: "externals \<Rightarrow> loop_state \<Rightarrow> nat \<Rightarrow> (source_record \<times> pyfloat list) list" where
  "batch_zip ext st i =
     zip (take batch_size (drop i (valid_records st)))
         (ef ext (take batch_size (drop i (docs_to_embed st))))"

text \<open>
  The part of \<open>migrate\<close> between the loading of the model and the episodes (lines
  212--332), for the collection names of the source.
\<close>

definition memories_stage :: "world \<Rightarrow> chroma_db \<Rightarrow> dest_db \<Rightarrow> outcome \<times> dest_db" where
  "memories_stage w chroma d =
     (case find (\<lambda>n. n \<noteq> ''episodes'') (map snd (collections chroma)) of
        None \<Rightarrow> (Returned, d)
      | Some memories_collection_name \<Rightarrow>
          if memories_collection_name \<noteq> [] then
            migrate_memories (libs w) (read_chroma_collection chroma memories_collection_name) d
          else (Returned, d))"

text \<open>The episode record of the sample source and the destination the sample run leaves.\<close>

definition rec_morning :: source_record where
  "rec_morning =
     \<lparr>rec_id = ''ep1'', document = ''a quiet morning'',
      metadata = [''title'' \<mapsto> PStr ''Morning'', ''start_time'' \<mapsto> PStr ''2025-01-01T08:00:00'']\<rparr>"

definition row_morning :: "sqlval episode_row" where
  "row_morning =
     \<lparr>ep_id = SText ''ep1'', ep_title = SText ''Morning'',
      ep_start_time = SText ''2025-01-01T08:00:00'', ep_end_time = SNull,
      ep_memory_ids = SText [], ep_participants = SText [], ep_location_context = SNull,
      ep_summary = SText ''a quiet morning'', ep_emotion = SText ''neutral'',
      ep_importance = SInteger 3\<rparr>"

definition sample_dest :: dest_db where
  "sample_dest =
     \<lparr>memories = [row_walk, row_tea],
      embeddings = [(''id1'', [0, 0, 0x80, 0x3F, 0, 0, 0, 0]),
                    (''id2'', [0, 0, 0x80, 0x3F, 0, 0, 0, 0])],
      coactivation = [(''id1'', ''id2'', Finite 0.95)],
      episodes = [row_morning]\<rparr>"

text \<open>
  The sample source with the coactivation mapping of its first document replaced by one
  whose weight is an integer of 401 digits.
\<close>

definition huge_chroma :: chroma_db where
  "huge_chroma =
     sample_chroma\<lparr>embedding_metadata :=
        [(1, ''chroma:document'', Some ''a walk'', None, None),
         (1, ''coactivation'', Some (''{\"id7\": 1'' @ replicate 400 CHR ''0'' @ ''}''), None, None),
         (2, ''chroma:document'', Some ''tea'', None, None),
         (2, ''content'', Some ''Tea with Mika'', None, None),
         (2, ''importance'', None, Some 4, None),
         (2, ''emotion'', Some ''happy'', None, None)]\<rparr>"

definition huge_world :: world where
  "huge_world = sample_world\<lparr>chroma_sqlite := Some huge_chroma\<rparr>"

text \<open>
  A destination left by an earlier migration of the sample source, at a time when the
  coactivation mapping of its first document gave the weight 0.25.
\<close>

definition stale_dest :: dest_db where
  "stale_dest = sample_dest\<lparr>coactivation := [(''id1'', ''id2'', Finite 0.25)], episodes := []\<rparr>"



section \<open>Properties of the coactivation extraction\<close>

lemma extract_items_acc:
  "extract_items ext mid kvs entries =
     (entries @ fst (extract_items ext mid kvs []), snd (extract_items ext mid kvs []))"
proof (induction kvs arbitrary: entries)
  case Nil
  show ?case by simp
next
  case (Cons kv kvs)
  obtain t j where kv: "kv = (t, j)" by (cases kv)
  show ?case
  proof (cases "json_float ext j")
    case (Inl e)
    then show ?thesis using Cons.IH[of entries] kv by simp
  next
    case (Inr w)
    then show ?thesis
      using Cons.IH[of "entries @ [(mid, t, clamp_weight w)]"]
            Cons.IH[of "[(mid, t, clamp_weight w)]"] kv
      by simp
  qed
qed




lemma extract_coactivation_acc:
  "extract_coactivation ext mid meta entries =
     (entries @ fst (extract_coactivation ext mid meta []),
      snd (extract_coactivation ext mid meta []))"
proof -
  have items: "\<And>kvs. extract_items ext mid kvs entries =
     (entries @ fst (extract_items ext mid kvs []), snd (extract_items ext mid kvs []))"
    by (rule extract_items_acc)
  show ?thesis
    unfolding extract_coactivation_def
    by (auto split: pyval.splits option.splits sum.splits json.splits prod.splits simp: items)
qed


lemma extract_items_mono:
  assumes "extract_items ext mid kvs entries = (entries', r)"
  shows "set entries \<subseteq> set entries'"
  using assms extract_items_acc[of ext mid kvs entries] by auto

section \<open>Properties of the record transformer\<close>

lemma memory_params_fields:
  assumes "memory_params ext rec = Inr p"
  shows "memory_id p = PStr (rec_id rec)"
    and "content p = original_content rec"
    and "normalized_content p = PStr (normalized ext rec)"
    and "emotion p = meta_get_default (meta_popped rec) ''emotion'' (PStr ''neutral'')"
    and "category p = meta_get_default (meta_popped rec) ''category'' (PStr ''daily'')"
    and "py_int ext (meta_get_default (meta_popped rec) ''importance'' (PInt 3)) = Inr i \<Longrightarrow> importance p = PInt i"
    and "\<exists>i. py_int ext (meta_get_default (meta_popped rec) ''importance'' (PInt 3)) = Inr i"
    and "\<exists>i. py_int ext (meta_get_default (meta_popped rec) ''access_count'' (PInt 0)) = Inr i"
    and "\<exists>f. py_float ext (meta_get_default (meta_popped rec) ''novelty_score'' (PFloat (Finite 0))) = Inr f"
    and "\<exists>f. py_float ext (meta_get_default (meta_popped rec) ''prediction_error'' (PFloat (Finite 0))) = Inr f"
    and "\<exists>i. py_int ext (meta_get_default (meta_popped rec) ''activation_count'' (PInt 0)) = Inr i"
  using assms unfolding memory_params_def Let_def
  by (auto split: sum.splits)

lemma memory_insert_row_Inr:
  assumes "memory_insert_row ext rec = Inr r"
  shows "\<exists>p. memory_params ext rec = Inr p \<and> r = bind_memory_row ext p"
  using assms unfolding memory_insert_row_def by (auto split: sum.splits if_splits)

lemma migrate_record_new_row:
  assumes "migrate_record ext rec st = Inr st'"
      and "r \<in> set (memories (conn st'))" and "r \<notin> set (memories (conn st))"
  shows "memory_insert_row ext rec = Inr r"
  using assms unfolding migrate_record_def insert_memory_def
  by (auto split: prod.splits option.splits sum.splits if_splits)

lemma aux_Cons:
  "rows_of ext (r # recs) = rows_of ext [r] @ rows_of ext recs"
  "inserted_records ext (r # recs) = inserted_records ext [r] @ inserted_records ext recs"
  "entries_of ext (r # recs) = entries_of ext [r] @ entries_of ext recs"
  "warnings_of ext (r # recs) = warnings_of ext [r] @ warnings_of ext recs"
  by (simp_all add: rows_of_def inserted_records_def entries_of_def warnings_of_def)

lemma aux_Nil:
  "rows_of ext [] = []" "inserted_records ext [] = []" "entries_of ext [] = []"
  "warnings_of ext [] = []"
  by (simp_all add: rows_of_def inserted_records_def entries_of_def warnings_of_def)

lemma loop_result_Nil: "loop_result ext [] st = st"
  by (simp add: loop_result_def aux_Nil)

lemma loop_result_Cons:
  "loop_result ext (r # recs) st = loop_result ext recs (loop_result ext [r] st)"
  unfolding loop_result_def
  by (simp add: aux_Cons[of ext r recs] Un_assoc image_Un)

lemma migrate_record_eq:
  "migrate_record ext rec st =
     (case snd (extract_coactivation ext (rec_id rec) (metadata rec) []) of
        Some e \<Rightarrow> Inl e
      | None \<Rightarrow> Inr (loop_result ext [rec] st))"
proof -
  obtain es r where ec0: "extract_coactivation ext (rec_id rec) (metadata rec) [] = (es, r)"
    by (cases "extract_coactivation ext (rec_id rec) (metadata rec) []")
  have ec: "extract_coactivation ext (rec_id rec) (metadata rec) (coactivation_entries st)
              = (coactivation_entries st @ es, r)"
    using extract_coactivation_acc[of ext "rec_id rec" "metadata rec" "coactivation_entries st"] ec0
    by simp
  show ?thesis
  proof (cases "memory_insert_row ext rec")
    case (Inl e)
    then show ?thesis
      unfolding migrate_record_def ec loop_result_def
      by (cases r) (simp_all add: ec0 rows_of_def inserted_records_def entries_of_def warnings_of_def)
  next
    case (Inr row)
    then show ?thesis
      unfolding migrate_record_def ec loop_result_def
      by (cases r) (simp_all add: ec0 rows_of_def inserted_records_def entries_of_def warnings_of_def)
  qed
qed

lemma migrate_records_ok:
  assumes "\<forall>r\<in>set recs. snd (extract_coactivation ext (rec_id r) (metadata r) []) = None"
  shows "migrate_records ext recs st = Inr (loop_result ext recs st)"
  using assms
proof (induction recs arbitrary: st)
  case Nil
  show ?case by (simp add: loop_result_Nil)
next
  case (Cons r recs)
  then show ?case
    by (simp add: migrate_record_eq loop_result_Cons[of ext r recs])
qed

lemma migrate_records_Inr:
  assumes "migrate_records ext recs st = Inr st'"
  shows "(\<forall>r\<in>set recs. snd (extract_coactivation ext (rec_id r) (metadata r) []) = None)
         \<and> st' = loop_result ext recs st"
proof -
  have "\<forall>r\<in>set recs. snd (extract_coactivation ext (rec_id r) (metadata r) []) = None"
    using assms
  proof (induction recs arbitrary: st)
    case Nil
    show ?case by simp
  next
    case (Cons r recs)
    then show ?case
      by (auto simp: migrate_record_eq split: option.splits sum.splits)
  qed
  with assms migrate_records_ok[of recs ext st] show ?thesis by simp
qed

section \<open>Sample runs\<close>

lemmas row_defs = memory_insert_row_def memory_params_def meta_popped_def meta_get_default_def
  meta_get_def original_content_def episode_id_of_def normalized_def py_or_def
  memory_cells_def bind_memory_row_def sample_externals_def float_of_int_def

lemmas extract_defs = extract_coactivation_def coact_raw_def meta_get_default_def py_or_def
  sample_externals_def sample_json_loads_def clamp_weight_def py_min_def py_max_def
  float_of_int_def

lemma row_walk_eq: "memory_insert_row sample_externals rec_walk = Inr row_walk"
  by (simp add: row_defs rec_walk_def row_walk_def)

lemma row_tea_eq: "memory_insert_row sample_externals rec_tea = Inr row_tea"
  by (simp add: row_defs rec_tea_def row_tea_def)

lemma extract_walk:
  "extract_coactivation sample_externals (rec_id rec_walk) (metadata rec_walk) [] =
     ([(''id1'', ''id2'', Finite 0.95)], None)"
  by (simp add: extract_defs rec_walk_def)

lemma extract_tea:
  "extract_coactivation sample_externals (rec_id rec_tea) (metadata rec_tea) [] = ([], None)"
  by (simp add: extract_defs rec_tea_def)

lemma step_walk:
  "migrate_record sample_externals rec_walk (initial_state empty_db) =
     Inr \<lparr>conn = empty_db\<lparr>memories := [row_walk]\<rparr>, memory_ids_in_dest = {''id1''},
          coactivation_entries = [(''id1'', ''id2'', Finite 0.95)],
          docs_to_embed = [PStr ''awalk''], valid_records = [rec_walk], warnings = []\<rparr>"
proof -
  have id: "rec_id rec_walk = ''id1''" by (simp add: rec_walk_def)
  have nn: "memory_not_null row_walk" by (simp add: memory_not_null_def row_walk_def)
  have doc: "doc_to_embed sample_externals rec_walk = PStr ''awalk''"
    by (simp add: doc_to_embed_def normalized_def py_or_def rec_walk_def sample_externals_def)
  show ?thesis
    unfolding migrate_record_def
    using extract_walk row_walk_eq nn doc
    by (simp add: initial_state_def insert_memory_def empty_db_def id)
qed

lemma step_tea:
  "migrate_record sample_externals rec_tea (initial_state empty_db) =
     Inr \<lparr>conn = empty_db\<lparr>memories := [row_tea]\<rparr>, memory_ids_in_dest = {''id2''},
          coactivation_entries = [],
          docs_to_embed = [PStr ''tea''], valid_records = [rec_tea], warnings = []\<rparr>"
proof -
  have id: "rec_id rec_tea = ''id2''" by (simp add: rec_tea_def)
  have nn: "memory_not_null row_tea" by (simp add: memory_not_null_def row_tea_def)
  have doc: "doc_to_embed sample_externals rec_tea = PStr ''tea''"
    by (simp add: doc_to_embed_def normalized_def py_or_def rec_tea_def sample_externals_def)
  show ?thesis
    unfolding migrate_record_def
    using extract_tea row_tea_eq nn doc
    by (simp add: initial_state_def insert_memory_def empty_db_def id)
qed

section \<open>The claims about the memory row\<close>

text \<open>
  C5.  The row that the iteration for a record inserts into \<open>memories\<close> has importance
  3 when the record's metadata has no key \<open>importance\<close>, emotion \<open>neutral\<close> when it has
  no key \<open>emotion\<close>, and category \<open>daily\<close> when it has no key \<open>category\<close>.
\<close>

theorem inserted_row_defaults:
  assumes "migrate_record ext rec st = Inr st'"
      and "r \<in> set (memories (conn st'))" and "r \<notin> set (memories (conn st))"
  shows "(metadata rec ''importance'' = None \<longrightarrow> importance r = SInteger 3)
       \<and> (metadata rec ''emotion'' = None \<longrightarrow> emotion r = SText ''neutral'')
       \<and> (metadata rec ''category'' = None \<longrightarrow> category r = SText ''daily'')"
proof -
  from migrate_record_new_row[OF assms] obtain p
    where p: "memory_params ext rec = Inr p" and r: "r = bind_memory_row ext p"
    using memory_insert_row_Inr by blast
  have imp: "metadata rec ''importance'' = None \<longrightarrow> importance p = PInt 3"
    using memory_params_fields(6)[OF p, of 3]
    by (simp add: meta_popped_def meta_get_default_def)
  have emo: "metadata rec ''emotion'' = None \<longrightarrow> emotion p = PStr ''neutral''"
    using memory_params_fields(4)[OF p] by (simp add: meta_popped_def meta_get_default_def)
  have cat: "metadata rec ''category'' = None \<longrightarrow> category p = PStr ''daily''"
    using memory_params_fields(5)[OF p] by (simp add: meta_popped_def meta_get_default_def)
  from imp emo cat show ?thesis by (simp add: r bind_memory_row_def)
qed

theorem inserted_row_defaults_witness:
  "metadata rec_walk ''importance'' = None \<and> metadata rec_walk ''emotion'' = None
   \<and> metadata rec_walk ''category'' = None
   \<and> memories (conn (projr (migrate_record sample_externals rec_walk (initial_state empty_db))))
       = [row_walk]
   \<and> memories (conn (initial_state empty_db)) = []
   \<and> importance row_walk = SInteger 3 \<and> emotion row_walk = SText ''neutral''
   \<and> category row_walk = SText ''daily''"
proof -
  let ?st' = "\<lparr>conn = empty_db\<lparr>memories := [row_walk]\<rparr>, memory_ids_in_dest = {''id1''},
          coactivation_entries = [(''id1'', ''id2'', Finite 0.95)],
          docs_to_embed = [PStr ''awalk''], valid_records = [rec_walk], warnings = []\<rparr>"
  have h2: "row_walk \<in> set (memories (conn ?st'))" by simp
  have h3: "row_walk \<notin> set (memories (conn (initial_state empty_db)))"
    by (simp add: initial_state_def empty_db_def)
  have m: "metadata rec_walk ''importance'' = None \<and> metadata rec_walk ''emotion'' = None
   \<and> metadata rec_walk ''category'' = None"
    by (simp add: rec_walk_def)
  from inserted_row_defaults[OF step_walk h2 h3] m step_walk
  show ?thesis by (simp add: initial_state_def empty_db_def)
qed

text \<open>
  C6, as stated, fails: a metadata mapping can hold the key \<open>content\<close> with the empty
  string, and then the document text is stored, not the field.
\<close>

theorem content_present_but_empty_counterexample:
  "metadata rec_empty_content ''content'' = Some (PStr [])
   \<and> document rec_empty_content = ''hello''
   \<and> map content (memories (conn (projr
        (migrate_record sample_externals rec_empty_content (initial_state empty_db)))))
       = [SText ''hello'']
   \<and> SText ''hello'' \<noteq> SText []"
proof -
  have ex: "extract_coactivation sample_externals (rec_id rec_empty_content)
              (metadata rec_empty_content) (coactivation_entries (initial_state empty_db)) = ([], None)"
    by (simp add: extract_defs rec_empty_content_def initial_state_def)
  obtain row where row: "memory_insert_row sample_externals rec_empty_content = Inr row"
      and c: "content row = SText ''hello''" and nn: "memory_not_null row"
    by (simp add: row_defs rec_empty_content_def memory_not_null_def)
  show ?thesis
    unfolding migrate_record_def ex
    using row c nn
    by (simp add: insert_memory_def initial_state_def empty_db_def rec_empty_content_def)
qed

text \<open>
  C6, amended.  The content column of the inserted row is the metadata's \<open>content\<close>
  field when that field is present and a non-empty string, and the record's document
  text when the field is absent or the empty string.
\<close>

theorem inserted_row_content:
  assumes "migrate_record ext rec st = Inr st'"
      and "r \<in> set (memories (conn st'))" and "r \<notin> set (memories (conn st))"
  shows "(metadata rec ''content'' = None \<longrightarrow> content r = SText (document rec))
       \<and> (\<forall>s. metadata rec ''content'' = Some (PStr s) \<longrightarrow>
              content r = SText (if s = [] then document rec else s))"
proof -
  from migrate_record_new_row[OF assms] obtain p
    where p: "memory_params ext rec = Inr p" and r: "r = bind_memory_row ext p"
    using memory_insert_row_Inr by blast
  have "content p = original_content rec" by (rule memory_params_fields(2)[OF p])
  then show ?thesis
    by (simp add: r bind_memory_row_def original_content_def meta_popped_def meta_get_def
        py_or_def)
qed

theorem inserted_row_content_witness:
  "metadata rec_tea ''content'' = Some (PStr ''Tea with Mika'')
   \<and> memories (conn (projr (migrate_record sample_externals rec_tea (initial_state empty_db))))
       = [row_tea]
   \<and> memories (conn (initial_state empty_db)) = []
   \<and> content row_tea = SText ''Tea with Mika''"
proof -
  let ?st' = "\<lparr>conn = empty_db\<lparr>memories := [row_tea]\<rparr>, memory_ids_in_dest = {''id2''},
          coactivation_entries = [],
          docs_to_embed = [PStr ''tea''], valid_records = [rec_tea], warnings = []\<rparr>"
  have h2: "row_tea \<in> set (memories (conn ?st'))" by simp
  have h3: "row_tea \<notin> set (memories (conn (initial_state empty_db)))"
    by (simp add: initial_state_def empty_db_def)
  have m: "metadata rec_tea ''content'' = Some (PStr ''Tea with Mika'')"
    by (simp add: rec_tea_def)
  note c = inserted_row_content[OF step_tea h2 h3, THEN conjunct2, THEN spec, THEN mp, OF m]
  from c m step_tea
  show ?thesis by (simp add: initial_state_def empty_db_def)
qed

section \<open>Properties of the loop over the records\<close>

lemma loop_result_initial:
  "loop_result ext recs (initial_state d) =
     \<lparr>conn = fold insert_memory (rows_of ext recs) d,
      memory_ids_in_dest = rec_id ` set (inserted_records ext recs),
      coactivation_entries = entries_of ext recs,
      docs_to_embed = map (doc_to_embed ext) (inserted_records ext recs),
      valid_records = inserted_records ext recs,
      warnings = warnings_of ext recs\<rparr>"
  by (simp add: loop_result_def initial_state_def)

lemma fold_insert_memory_frame:
  "embeddings (fold insert_memory rows d) = embeddings d"
  "coactivation (fold insert_memory rows d) = coactivation d"
  "episodes (fold insert_memory rows d) = episodes d"
  by (induction rows arbitrary: d) (simp_all add: insert_memory_def)

lemma fold_insert_memory_subset:
  "set (memories (fold insert_memory rows d)) \<subseteq> set (memories d) \<union> set rows"
proof (induction rows arbitrary: d)
  case Nil
  show ?case by simp
next
  case (Cons r rows)
  from Cons.IH[of "insert_memory r d"] show ?case
    by (auto simp: insert_memory_def split: if_splits)
qed

lemma fold_insert_memory_new:
  "r \<in> set (memories (fold insert_memory rows d)) \<Longrightarrow> r \<in> set (memories d) \<or> r \<in> set rows"
  using fold_insert_memory_subset[of rows d] by auto


lemma rows_of_mem:
  "r \<in> set (rows_of ext recs) \<Longrightarrow>
     \<exists>rec \<in> set (inserted_records ext recs). memory_insert_row ext rec = Inr r"
  by (auto simp: rows_of_def inserted_records_def)

lemma inserted_records_mem:
  "rec \<in> set (inserted_records ext recs) \<longleftrightarrow> rec \<in> set recs \<and> \<not> isl (memory_insert_row ext rec)"
  by (auto simp: inserted_records_def)

section \<open>Properties of the embedding stage\<close>

lemma memory_insert_row_id:
  assumes "memory_insert_row ext rec = Inr r"
  shows "memory_id r = SText (rec_id rec)"
proof -
  from memory_insert_row_Inr[OF assms] obtain p
    where p: "memory_params ext rec = Inr p" and r: "r = bind_memory_row ext p" by blast
  show ?thesis using memory_params_fields(1)[OF p] by (simp add: r bind_memory_row_def)
qed

lemma embed_batch_frame:
  assumes "embed_batch ext ids zs d = Inr d'"
  shows "memories d' = memories d \<and> coactivation d' = coactivation d \<and> episodes d' = episodes d"
  using assms
  by (induction zs arbitrary: d)
     (auto simp: insert_embedding_def split: if_splits sum.splits prod.splits)

lemma insert_embedding_keys:
  assumes "insert_embedding mid vec d = Inr d1"
  shows "fst ` set (embeddings d1) \<subseteq> insert mid (fst ` set (embeddings d))"
proof (cases "mid \<in> fst ` set (embeddings d)")
  case True
  with assms have "d1 = d" by (simp add: insert_embedding_def)
  then show ?thesis by blast
next
  case False
  with assms have "d1 = d\<lparr>embeddings := embeddings d @ [(mid, vec)]\<rparr>"
    by (simp add: insert_embedding_def split: if_splits)
  then show ?thesis by simp
qed



lemma set_step_in:
  "A \<subseteq> insert m B \<Longrightarrow> C \<subseteq> A \<union> (Z \<inter> I) \<Longrightarrow> m \<in> I \<Longrightarrow> C \<subseteq> B \<union> (insert m Z \<inter> I)"
  by blast

lemma set_step_out:
  "C \<subseteq> B \<union> (Z \<inter> I) \<Longrightarrow> C \<subseteq> B \<union> (insert m Z \<inter> I)"
  by blast

lemma embed_batch_keys:
  assumes "embed_batch ext ids zs d = Inr d'"
  shows "fst ` set (embeddings d') \<subseteq> fst ` set (embeddings d) \<union> (rec_id ` fst ` set zs \<inter> ids)"
  using assms
proof (induction zs arbitrary: d)
  case Nil
  then show ?case by simp
next
  case (Cons z zs)
  obtain rec vec where z: "z = (rec, vec)" by (cases z)
  have img: "rec_id ` fst ` set (z # zs) = insert (rec_id rec) (rec_id ` fst ` set zs)"
    by (simp add: z)
  show ?case
  proof (cases "rec_id rec \<in> ids")
    case False
    with Cons.prems have "embed_batch ext ids zs d = Inr d'" unfolding z by simp
    from Cons.IH[OF this] show ?thesis unfolding img by (rule set_step_out)
  next
    case True
    show ?thesis
    proof (cases "insert_embedding (rec_id rec) (vec_bytes ext vec) d")
      case (Inl e)
      with Cons.prems True show ?thesis unfolding z by simp
    next
      case (Inr d1)
      with Cons.prems True have rest: "embed_batch ext ids zs d1 = Inr d'" unfolding z by simp
      show ?thesis unfolding img
        by (rule set_step_in[OF insert_embedding_keys[OF Inr] Cons.IH[OF rest] True])
    qed
  qed
qed


lemma set_step_batches:
  "A \<subseteq> B \<union> (Z \<inter> I) \<Longrightarrow> C \<subseteq> A \<union> (V \<inter> I) \<Longrightarrow> Z \<subseteq> V \<Longrightarrow> C \<subseteq> B \<union> (V \<inter> I)"
  by blast

lemma embed_batches_keys:
  assumes "embed_batches ext st is d = (err, d')"
  shows "fst ` set (embeddings d') \<subseteq>
           fst ` set (embeddings d) \<union> (rec_id ` set (valid_records st) \<inter> memory_ids_in_dest st)"
  using assms
proof (induction "is" arbitrary: d)
  case Nil
  then show ?case by simp
next
  case (Cons i "is")
  let ?zs = "zip (take batch_size (drop i (valid_records st)))
                 (ef ext (take batch_size (drop i (docs_to_embed st))))"
  show ?case
  proof (cases "embed_batch ext (memory_ids_in_dest st) ?zs d")
    case (Inl e)
    with Cons.prems have "d' = d" by (simp add: Let_def)
    then show ?thesis by simp
  next
    case (Inr d1)
    with Cons.prems have rest: "embed_batches ext st is d1 = (err, d')" by (simp add: Let_def)
    have "fst ` set ?zs \<subseteq> set (valid_records st)"
    proof
      fix x assume "x \<in> fst ` set ?zs"
      then obtain y where "(x, y) \<in> set ?zs" by auto
      then have "x \<in> set (take batch_size (drop i (valid_records st)))" by (rule set_zip_leftD)
      then show "x \<in> set (valid_records st)" by (meson in_set_takeD in_set_dropD)
    qed
    then have sub: "rec_id ` fst ` set ?zs \<subseteq> rec_id ` set (valid_records st)" by (rule image_mono)
    show ?thesis
      by (rule set_step_batches[OF embed_batch_keys[OF Inr] Cons.IH[OF rest] sub])
  qed
qed

section \<open>Further sample runs\<close>

lemma extract_bad:
  "extract_coactivation sample_externals (rec_id rec_bad_importance) (metadata rec_bad_importance) [] =
     ([(''id3'', ''id2'', Finite 0.95)], None)"
  by (simp add: extract_defs rec_bad_importance_def)


lemma row_bad_eq: "memory_insert_row sample_externals rec_bad_importance = Inl ValueError"
  by (simp add: row_defs rec_bad_importance_def)

lemma row_blank_eq:
  "\<not> isl (memory_insert_row sample_externals rec_blank)
   \<and> normalized_content (projr (memory_insert_row sample_externals rec_blank)) = SText []
   \<and> memory_id (projr (memory_insert_row sample_externals rec_blank)) = SText ''id5''
   \<and> memory_not_null (projr (memory_insert_row sample_externals rec_blank))"
  by (simp add: row_defs rec_blank_def memory_not_null_def)

lemma extract_huge:
  "extract_coactivation sample_externals (rec_id rec_huge_weight) (metadata rec_huge_weight) [] =
     ([], Some OverflowError)"
  by (simp add: extract_defs rec_huge_weight_def)


lemma isl_samples:
  "\<not> isl (memory_insert_row sample_externals rec_walk)"
  "\<not> isl (memory_insert_row sample_externals rec_tea)"
  "isl (memory_insert_row sample_externals rec_bad_importance)"
  "\<not> isl (memory_insert_row sample_externals rec_blank)"
  by (simp_all add: row_walk_eq row_tea_eq row_bad_eq row_blank_eq)

section \<open>The claims about normalization, coercion failures and malformed weights\<close>



text \<open>
  C10.  When a numeric metadata field of a record (\<open>importance\<close>, \<open>access_count\<close>,
  \<open>activation_count\<close>, \<open>novelty_score\<close>, \<open>prediction_error\<close>) holds a value on which
  \<open>int()\<close> or \<open>float()\<close> raises, the loop goes on, the record is not among the valid
  records and a warning with its id is printed; and when no other record carries the
  same id, the id is not in \<open>memory_ids_in_dest\<close>, no row of \<open>memories\<close> is added for
  it, and the embedding stage adds no row of \<open>embeddings\<close> for it.
\<close>

theorem failed_numeric_coercion_skips_record:
  assumes run: "migrate_records ext recs (initial_state d) = Inr st"
      and rec: "rec \<in> set recs"
      and fails: "(\<exists>k \<in> {''importance'', ''access_count'', ''activation_count''}.
                     \<exists>v. metadata rec k = Some v \<and> isl (py_int ext v))
                \<or> (\<exists>k \<in> {''novelty_score'', ''prediction_error''}.
                     \<exists>v. metadata rec k = Some v \<and> isl (py_float ext v))"
  shows "rec \<notin> set (valid_records st)
       \<and> (\<exists>e. (rec_id rec, e) \<in> set (warnings st))
       \<and> ((\<forall>r' \<in> set recs. rec_id r' = rec_id rec \<longrightarrow> r' = rec) \<longrightarrow>
            rec_id rec \<notin> memory_ids_in_dest st
          \<and> SText (rec_id rec) \<notin> memory_id ` (set (memories (conn st)) - set (memories d))
          \<and> (\<forall>err d'. recompute_embeddings ext st = (err, d') \<longrightarrow>
                rec_id rec \<notin> fst ` set (embeddings d') - fst ` set (embeddings d)))"
proof -
  from migrate_records_Inr[OF run] have st: "st = loop_result ext recs (initial_state d)" by simp
  have not_ins: "isl (memory_insert_row ext rec)"
  proof (rule ccontr)
    assume "\<not> isl (memory_insert_row ext rec)"
    then obtain r where "memory_insert_row ext rec = Inr r"
      by (cases "memory_insert_row ext rec") auto
    from memory_insert_row_Inr[OF this] obtain p where p: "memory_params ext rec = Inr p" by blast
    note f = memory_params_fields(7-11)[OF p]
    from fails f show False
      by (auto simp: meta_popped_def meta_get_default_def)
  qed
  have valid: "rec \<notin> set (valid_records st)"
    using not_ins by (simp add: st loop_result_initial inserted_records_def)
  have warn: "\<exists>e. (rec_id rec, e) \<in> set (warnings st)"
    using not_ins rec by (auto simp: st loop_result_initial warnings_of_def)
  have uniq: "(\<forall>r' \<in> set recs. rec_id r' = rec_id rec \<longrightarrow> r' = rec) \<longrightarrow>
            rec_id rec \<notin> memory_ids_in_dest st
          \<and> SText (rec_id rec) \<notin> memory_id ` (set (memories (conn st)) - set (memories d))
          \<and> (\<forall>err d'. recompute_embeddings ext st = (err, d') \<longrightarrow>
                rec_id rec \<notin> fst ` set (embeddings d') - fst ` set (embeddings d))"
  proof
    assume u: "\<forall>r' \<in> set recs. rec_id r' = rec_id rec \<longrightarrow> r' = rec"
    have ids: "rec_id rec \<notin> memory_ids_in_dest st"
    proof
      assume "rec_id rec \<in> memory_ids_in_dest st"
      then obtain r' where "r' \<in> set (inserted_records ext recs)" "rec_id r' = rec_id rec"
        by (auto simp: st loop_result_initial)
      with u not_ins show False by (auto simp: inserted_records_mem)
    qed
    have mem: "SText (rec_id rec) \<notin> memory_id ` (set (memories (conn st)) - set (memories d))"
    proof
      assume "SText (rec_id rec) \<in> memory_id ` (set (memories (conn st)) - set (memories d))"
      then obtain r where r: "r \<in> set (memories (conn st))" "r \<notin> set (memories d)"
        and rid: "memory_id r = SText (rec_id rec)" by auto
      from r have "r \<in> set (rows_of ext recs)"
        using fold_insert_memory_new[of r "rows_of ext recs" d] by (auto simp: st loop_result_initial)
      then obtain r' where r': "r' \<in> set (inserted_records ext recs)"
        and row: "memory_insert_row ext r' = Inr r" using rows_of_mem by blast
      from memory_insert_row_id[OF row] rid have "rec_id r' = rec_id rec" by simp
      with u r' not_ins show False by (auto simp: inserted_records_mem)
    qed
    have emb: "\<forall>err d'. recompute_embeddings ext st = (err, d') \<longrightarrow>
                rec_id rec \<notin> fst ` set (embeddings d') - fst ` set (embeddings d)"
    proof (intro allI impI)
      fix err d' assume "recompute_embeddings ext st = (err, d')"
      from embed_batches_keys[OF this[unfolded recompute_embeddings_def]]
      have "fst ` set (embeddings d') \<subseteq> fst ` set (embeddings (conn st)) \<union> memory_ids_in_dest st"
        by auto
      moreover have "embeddings (conn st) = embeddings d"
        by (simp add: st loop_result_initial fold_insert_memory_frame)
      ultimately show "rec_id rec \<notin> fst ` set (embeddings d') - fst ` set (embeddings d)"
        using ids by auto
    qed
    from ids mem emb show "rec_id rec \<notin> memory_ids_in_dest st
          \<and> SText (rec_id rec) \<notin> memory_id ` (set (memories (conn st)) - set (memories d))
          \<and> (\<forall>err d'. recompute_embeddings ext st = (err, d') \<longrightarrow>
                rec_id rec \<notin> fst ` set (embeddings d') - fst ` set (embeddings d))"
      by blast
  qed
  from valid warn uniq show ?thesis by blast
qed


theorem failed_numeric_coercion_skips_record_witness:
  "migrate_records sample_externals [rec_walk, rec_bad_importance, rec_tea] (initial_state empty_db)
     = Inr (loop_result sample_externals [rec_walk, rec_bad_importance, rec_tea] (initial_state empty_db))
   \<and> metadata rec_bad_importance ''importance'' = Some (PStr ''high'')
   \<and> isl (py_int sample_externals (PStr ''high''))
   \<and> rec_bad_importance \<notin> set (valid_records
         (loop_result sample_externals [rec_walk, rec_bad_importance, rec_tea] (initial_state empty_db)))
   \<and> warnings (loop_result sample_externals [rec_walk, rec_bad_importance, rec_tea] (initial_state empty_db))
       = [(''id3'', ValueError)]
   \<and> ''id3'' \<notin> memory_ids_in_dest
         (loop_result sample_externals [rec_walk, rec_bad_importance, rec_tea] (initial_state empty_db))"
proof -
  let ?recs = "[rec_walk, rec_bad_importance, rec_tea]"
  let ?st = "loop_result sample_externals ?recs (initial_state empty_db)"
  have run: "migrate_records sample_externals ?recs (initial_state empty_db) = Inr ?st"
    by (rule migrate_records_ok) (simp add: extract_walk extract_bad extract_tea)
  have mem: "rec_bad_importance \<in> set ?recs" by simp
  have m: "metadata rec_bad_importance ''importance'' = Some (PStr ''high'')"
    by (simp add: rec_bad_importance_def)
  have i: "isl (py_int sample_externals (PStr ''high''))"
    by (simp add: sample_externals_def)
  have fails: "(\<exists>k \<in> {''importance'', ''access_count'', ''activation_count''}.
                     \<exists>v. metadata rec_bad_importance k = Some v \<and> isl (py_int sample_externals v))
                \<or> (\<exists>k \<in> {''novelty_score'', ''prediction_error''}.
                     \<exists>v. metadata rec_bad_importance k = Some v \<and> isl (py_float sample_externals v))"
    using m i by blast
  have uniq: "\<forall>r' \<in> set ?recs. rec_id r' = rec_id rec_bad_importance \<longrightarrow> r' = rec_bad_importance"
    by (simp add: rec_walk_def rec_tea_def rec_bad_importance_def)
  have id: "rec_id rec_bad_importance = ''id3''" by (simp add: rec_bad_importance_def)
  have w: "warnings ?st = [(''id3'', ValueError)]"
    by (simp add: loop_result_initial warnings_of_def isl_samples row_bad_eq id)
  note c = failed_numeric_coercion_skips_record[OF run mem fails]
  from c[THEN conjunct1] c[THEN conjunct2, THEN conjunct2, THEN mp, OF uniq, THEN conjunct1]
  have "rec_bad_importance \<notin> set (valid_records ?st) \<and> ''id3'' \<notin> memory_ids_in_dest ?st"
    unfolding id by (rule conjI)
  with run m i w show ?thesis by simp
qed

text \<open>
  An item whose weight raises \<open>TypeError\<close> or \<open>ValueError\<close> is passed over: the loop
  behaves as if the item were absent.
\<close>

lemma extract_items_append:
  "extract_items ext mid (kvs1 @ kvs2) entries =
     (case extract_items ext mid kvs1 entries of
        (entries', None) \<Rightarrow> extract_items ext mid kvs2 entries'
      | (entries', Some e) \<Rightarrow> (entries', Some e))"
proof (induction kvs1 arbitrary: entries)
  case Nil
  show ?case by simp
next
  case (Cons kv kvs1)
  obtain t j where kv: "kv = (t, j)" by (cases kv)
  show ?case unfolding kv using Cons.IH
    by (cases "json_float ext j") simp_all
qed

lemma malformed_weight_dropped:
  assumes "json_float ext j = Inl e" and "e = TypeError \<or> e = ValueError"
  shows "extract_items ext mid (kvs1 @ (t, j) # kvs2) entries =
         extract_items ext mid (kvs1 @ kvs2) entries"
  using assms
  by (auto simp: extract_items_append split: prod.splits option.splits)

text \<open>
  C9 fails on the code for a weight on which \<open>float()\<close> raises \<open>OverflowError\<close>, an
  integer of 401 digits here: the exception is caught by neither handler of lines
  242--245 and ends the whole migration, with no row written.
\<close>

theorem huge_weight_aborts_migration:
  "json_float sample_externals (JInt (10 ^ 400)) = Inl OverflowError
   \<and> migrate_memories sample_externals [rec_huge_weight, rec_tea] empty_db
       = (Uncaught OverflowError, empty_db)"
proof -
  have "json_float sample_externals (JInt (10 ^ 400)) = Inl OverflowError"
    by (simp add: float_of_int_def)
  moreover have "migrate_record sample_externals rec_huge_weight (initial_state empty_db) = Inl OverflowError"
    by (simp add: migrate_record_eq extract_huge)
  ultimately show ?thesis by (simp add: migrate_memories_def)
qed

section \<open>The vector codec\<close>

lemma decode_encode_float32:
  fixes w :: "32 word"
  shows "(ucast (ucast w :: 8 word) OR push_bit 8 (ucast (ucast (drop_bit 8 w) :: 8 word))
          OR push_bit 16 (ucast (ucast (drop_bit 16 w) :: 8 word))
          OR push_bit 24 (ucast (ucast (drop_bit 24 w) :: 8 word))) = w"
proof (rule bit_word_eqI)
  fix n assume n: "n < LENGTH(32)"
  then have "n < 8 \<or> (8 \<le> n \<and> n < 16) \<or> (16 \<le> n \<and> n < 24) \<or> (24 \<le> n \<and> n < 32)"
    by auto
  then show "bit (ucast (ucast w :: 8 word) OR push_bit 8 (ucast (ucast (drop_bit 8 w) :: 8 word))
          OR push_bit 16 (ucast (ucast (drop_bit 16 w) :: 8 word))
          OR push_bit 24 (ucast (ucast (drop_bit 24 w) :: 8 word)) :: 32 word) n = bit w n"
    using n by (auto simp: bit_simps)
qed

text \<open>
  C8.  The encoding of a vector of N single-precision floats, given by their bit
  patterns, is a blob of exactly 4 N bytes, and decoding that blob gives back the same
  bit patterns, whatever they are: denormals, both zeros and NaN payloads included.
\<close>

theorem vector_codec_roundtrip:
  "length (encode_vector v) = 4 * length v \<and> decode_vector (encode_vector v) = Some v"
proof (induction v)
  case Nil
  show ?case by (simp add: encode_vector_def)
next
  case (Cons w v)
  then show ?case
    by (simp add: encode_vector_def encode_float32_def decode_encode_float32)
qed

lemma vector_codec_example:
  "encode_vector [0x3F800000, 0x80000000, 0x7FC00001, 0x00000001]
     = [0, 0, 0x80, 0x3F, 0, 0, 0, 0x80, 1, 0, 0xC0, 0x7F, 1, 0, 0, 0]
   \<and> decode_vector [0, 0, 0x80, 0x3F, 0, 0, 0, 0x80, 1, 0, 0xC0, 0x7F, 1, 0, 0, 0]
     = Some [0x3F800000, 0x80000000, 0x7FC00001, 0x00000001]"
  by (simp add: encode_vector_def encode_float32_def)

section \<open>The exits of the process\<close>

lemma migrate_memories_no_exit:
  "fst (migrate_memories ext recs d) \<noteq> SysExit status msgs"
  unfolding migrate_memories_def
  by (auto split: sum.splits prod.splits option.splits)

section \<open>Insert-or-ignore\<close>

lemma ioi_fold_prefix:
  "\<exists>new. fold (ioi ok key) rs t = t @ new \<and> set new \<subseteq> {r \<in> set rs. ok r}"
proof (induction rs arbitrary: t)
  case Nil
  show ?case by simp
next
  case (Cons r rs)
  from Cons.IH[of "ioi ok key r t"] obtain new
    where new: "fold (ioi ok key) rs (ioi ok key r t) = ioi ok key r t @ new"
      and sub: "set new \<subseteq> {r \<in> set rs. ok r}" by blast
  show ?case
  proof (cases "ok r \<and> key r \<notin> key ` set t")
    case True
    then have "fold (ioi ok key) (r # rs) t = t @ (r # new)" using new by (simp add: ioi_def)
    moreover have "set (r # new) \<subseteq> {x \<in> set (r # rs). ok x}" using sub True by auto
    ultimately show ?thesis by blast
  next
    case False
    then have "fold (ioi ok key) (r # rs) t = t @ new" using new by (simp add: ioi_def)
    moreover have "set new \<subseteq> {x \<in> set (r # rs). ok x}" using sub by auto
    ultimately show ?thesis by blast
  qed
qed

lemma ioi_fold_keys_mono:
  "key ` set t \<subseteq> key ` set (fold (ioi ok key) rs t)"
  using ioi_fold_prefix[of ok key rs t] by auto

lemma ioi_fold_keys:
  "r \<in> set rs \<Longrightarrow> ok r \<Longrightarrow> key r \<in> key ` set (fold (ioi ok key) rs t)"
proof (induction rs arbitrary: t)
  case Nil
  then show ?case by simp
next
  case (Cons x rs)
  show ?case
  proof (cases "r = x")
    case True
    with Cons.prems have "key r \<in> key ` set (ioi ok key x t)" by (auto simp: ioi_def)
    with ioi_fold_keys_mono[of key "ioi ok key x t" ok rs] show ?thesis by auto
  next
    case False
    with Cons.prems have "r \<in> set rs" by simp
    from Cons.IH[OF this Cons.prems(2)] show ?thesis by simp
  qed
qed

lemma ioi_fold_absorbed:
  "\<forall>r \<in> set rs. ok r \<longrightarrow> key r \<in> key ` set t \<Longrightarrow> fold (ioi ok key) rs t = t"
  by (induction rs) (auto simp: ioi_def)

lemma ioi_fold_idem:
  "fold (ioi ok key) rs (fold (ioi ok key) rs t) = fold (ioi ok key) rs t"
  by (rule ioi_fold_absorbed) (simp add: ioi_fold_keys)

lemma ioi_fold_absorbed_ext:
  assumes "key ` set (fold (ioi ok key) rs t) \<subseteq> key ` set t'"
  shows "fold (ioi ok key) rs t' = t'"
proof (rule ioi_fold_absorbed, intro ballI impI)
  fix r assume "r \<in> set rs" "ok r"
  then have "key r \<in> key ` set (fold (ioi ok key) rs t)" by (rule ioi_fold_keys)
  with assms show "key r \<in> key ` set t'" by blast
qed

lemma ioi_fold_distinct:
  "distinct (map key t) \<Longrightarrow> distinct (map key (fold (ioi ok key) rs t))"
proof (induction rs arbitrary: t)
  case Nil
  then show ?case by simp
next
  case (Cons r rs)
  from Cons.prems have "distinct (map key (ioi ok key r t))" by (auto simp: ioi_def)
  from Cons.IH[OF this] show ?case by simp
qed


section \<open>The stages as insert-or-ignore folds\<close>

lemma insert_memory_ioi:
  "insert_memory r d = d\<lparr>memories := ioi memory_not_null memory_id r (memories d)\<rparr>"
  by (simp add: insert_memory_def ioi_def)

lemma fold_insert_memory_ioi:
  "fold insert_memory rows d =
     d\<lparr>memories := fold (ioi memory_not_null memory_id) rows (memories d)\<rparr>"
proof (induction rows arbitrary: d)
  case Nil
  show ?case by simp
next
  case (Cons r rows)
  show ?case
    by (simp add: Cons.IH[of "insert_memory r d"]) (simp add: insert_memory_ioi)
qed

lemma reconcile_entry_ioi:
  "reconcile_entry ids e d =
     d\<lparr>coactivation := ioi (edge_ok ids (memories d)) edge_key e (coactivation d)\<rparr>"
  by (simp add: reconcile_entry_def insert_coactivation_def ioi_def edge_ok_def)

lemma reconcile_ioi:
  "reconcile ids entries d =
     d\<lparr>coactivation := fold (ioi (edge_ok ids (memories d)) edge_key) entries (coactivation d)\<rparr>"
  unfolding reconcile_def
proof (induction entries arbitrary: d)
  case Nil
  show ?case by simp
next
  case (Cons e entries)
  show ?case
    by (simp add: Cons.IH[of "reconcile_entry ids e d"]) (simp add: reconcile_entry_ioi)
qed

lemma migrate_episode_ioi:
  "fst (migrate_episode ext rec s) =
     (fst s)\<lparr>episodes := fold (ioi episode_not_null ep_id) (episode_rows_of ext [rec]) (episodes (fst s))\<rparr>"
  by (cases "episode_insert_row ext rec")
     (simp_all add: migrate_episode_def episode_rows_of_def insert_episode_def ioi_def)

lemma episode_rows_of_Cons:
  "episode_rows_of ext (r # recs) = episode_rows_of ext [r] @ episode_rows_of ext recs"
  by (simp add: episode_rows_of_def)

lemma fold_migrate_episode_ioi:
  "fst (fold (migrate_episode ext) recs s) =
     (fst s)\<lparr>episodes := fold (ioi episode_not_null ep_id) (episode_rows_of ext recs) (episodes (fst s))\<rparr>"
proof (induction recs arbitrary: s)
  case Nil
  show ?case by (simp add: episode_rows_of_def)
next
  case (Cons r recs)
  show ?case
    by (simp add: Cons.IH[of "migrate_episode ext r s"] migrate_episode_ioi
        episode_rows_of_Cons[of ext r recs])
qed

lemma migrate_episodes_ioi:
  "fst (migrate_episodes ext recs d) =
     d\<lparr>episodes := fold (ioi episode_not_null ep_id) (episode_rows_of ext recs) (episodes d)\<rparr>"
  by (simp add: migrate_episodes_def fold_migrate_episode_ioi)

lemma insert_embedding_ioi:
  assumes "insert_embedding mid vec d = Inr d1"
  shows "d1 = d\<lparr>embeddings := ioi (\<lambda>r. True) fst (mid, vec) (embeddings d)\<rparr>"
proof (cases "mid \<in> fst ` set (embeddings d)")
  case True
  with assms show ?thesis by (simp add: insert_embedding_def ioi_def)
next
  case False
  with assms show ?thesis by (simp add: insert_embedding_def ioi_def split: if_splits)
qed

lemma embedding_rows_Cons:
  "embedding_rows ext ids ((rec, vec) # zs) =
     (if rec_id rec \<in> ids then [(rec_id rec, vec_bytes ext vec)] else []) @ embedding_rows ext ids zs"
  by (simp add: embedding_rows_def)

lemma embed_batch_ioi:
  assumes "embed_batch ext ids zs d = Inr d'"
  shows "d' = d\<lparr>embeddings := fold (ioi (\<lambda>r. True) fst) (embedding_rows ext ids zs) (embeddings d)\<rparr>"
  using assms
proof (induction zs arbitrary: d)
  case Nil
  then show ?case by (simp add: embedding_rows_def)
next
  case (Cons z zs)
  obtain rec vec where z: "z = (rec, vec)" by (cases z)
  show ?case
  proof (cases "rec_id rec \<in> ids")
    case False
    with Cons.prems have "embed_batch ext ids zs d = Inr d'" unfolding z by simp
    from Cons.IH[OF this] False show ?thesis unfolding z by (simp add: embedding_rows_Cons)
  next
    case True
    show ?thesis
    proof (cases "insert_embedding (rec_id rec) (vec_bytes ext vec) d")
      case (Inl e)
      with Cons.prems True show ?thesis unfolding z by simp
    next
      case (Inr d1)
      with Cons.prems True have rest: "embed_batch ext ids zs d1 = Inr d'" unfolding z by simp
      note d1 = insert_embedding_ioi[OF Inr]
      from Cons.IH[OF rest] True show ?thesis unfolding z
        by (simp add: embedding_rows_Cons) (simp add: d1)
    qed
  qed
qed


lemma embed_batch_absorbed:
  assumes "fst ` set (embedding_rows ext ids zs) \<subseteq> fst ` set (embeddings d)"
  shows "embed_batch ext ids zs d = Inr d"
  using assms
proof (induction zs)
  case Nil
  show ?case by simp
next
  case (Cons z zs)
  obtain rec vec where z: "z = (rec, vec)" by (cases z)
  from Cons.prems have sub: "fst ` set (embedding_rows ext ids zs) \<subseteq> fst ` set (embeddings d)"
    unfolding z by (auto simp: embedding_rows_Cons)
  show ?case
  proof (cases "rec_id rec \<in> ids")
    case False
    with Cons.IH[OF sub] show ?thesis unfolding z by simp
  next
    case True
    with Cons.prems have "rec_id rec \<in> fst ` set (embeddings d)"
      unfolding z by (auto simp: embedding_rows_Cons)
    then have "insert_embedding (rec_id rec) (vec_bytes ext vec) d = Inr d"
      by (simp add: insert_embedding_def)
    with Cons.IH[OF sub] True show ?thesis unfolding z by simp
  qed
qed

lemma embed_batch_covers:
  assumes "embed_batch ext ids zs d = Inr d'"
  shows "fst ` set (embedding_rows ext ids zs) \<subseteq> fst ` set (embeddings d')"
proof
  fix k assume "k \<in> fst ` set (embedding_rows ext ids zs)"
  then obtain r where r: "r \<in> set (embedding_rows ext ids zs)" and k: "k = fst r" by auto
  have "fst r \<in> fst ` set (fold (ioi (\<lambda>r. True) fst) (embedding_rows ext ids zs) (embeddings d))"
    by (rule ioi_fold_keys[OF r]) simp
  then show "k \<in> fst ` set (embeddings d')"
    unfolding k embed_batch_ioi[OF assms] by simp
qed

lemma embed_batch_prefix:
  assumes "embed_batch ext ids zs d = Inr d'"
  shows "\<exists>new. embeddings d' = embeddings d @ new"
  using ioi_fold_prefix[of "\<lambda>r. True" fst "embedding_rows ext ids zs" "embeddings d"]
  unfolding embed_batch_ioi[OF assms] by auto

lemma embed_batch_distinct:
  assumes "embed_batch ext ids zs d = Inr d'" and "distinct (map fst (embeddings d))"
  shows "distinct (map fst (embeddings d'))"
  using ioi_fold_distinct[OF assms(2), of "\<lambda>r. True" "embedding_rows ext ids zs"]
  unfolding embed_batch_ioi[OF assms(1)] by simp

lemma embed_batches_Cons:
  "embed_batches ext st (i # is) d =
     (case embed_batch ext (memory_ids_in_dest st) (batch_zip ext st i) d of
        Inl e \<Rightarrow> (Some e, d)
      | Inr d' \<Rightarrow> embed_batches ext st is d')"
  by (simp add: Let_def batch_zip_def)

lemma embed_batches_frame:
  assumes "embed_batches ext st is d = (r, d')"
  shows "memories d' = memories d \<and> coactivation d' = coactivation d \<and> episodes d' = episodes d"
  using assms
proof (induction "is" arbitrary: d)
  case Nil
  then show ?case by simp
next
  case (Cons i "is")
  show ?case
  proof (cases "embed_batch ext (memory_ids_in_dest st) (batch_zip ext st i) d")
    case (Inl e)
    with Cons.prems show ?thesis by (simp add: embed_batches_Cons del: embed_batches.simps)
  next
    case (Inr d1)
    with Cons.prems have "embed_batches ext st is d1 = (r, d')" by (simp add: embed_batches_Cons del: embed_batches.simps)
    from Cons.IH[OF this] embed_batch_frame[OF Inr] show ?thesis by simp
  qed
qed

lemma embed_batches_prefix:
  assumes "embed_batches ext st is d = (r, d')"
  shows "\<exists>new. embeddings d' = embeddings d @ new"
  using assms
proof (induction "is" arbitrary: d)
  case Nil
  then show ?case by simp
next
  case (Cons i "is")
  show ?case
  proof (cases "embed_batch ext (memory_ids_in_dest st) (batch_zip ext st i) d")
    case (Inl e)
    with Cons.prems show ?thesis by (simp add: embed_batches_Cons del: embed_batches.simps)
  next
    case (Inr d1)
    with Cons.prems have "embed_batches ext st is d1 = (r, d')" by (simp add: embed_batches_Cons del: embed_batches.simps)
    from Cons.IH[OF this] obtain n2 where n2: "embeddings d' = embeddings d1 @ n2" by blast
    from embed_batch_prefix[OF Inr] obtain n1 where n1: "embeddings d1 = embeddings d @ n1" by blast
    from n1 n2 have "embeddings d' = embeddings d @ (n1 @ n2)" by simp
    then show ?thesis by (rule exI)
  qed
qed

lemma embed_batches_distinct:
  assumes "embed_batches ext st is d = (r, d')" and "distinct (map fst (embeddings d))"
  shows "distinct (map fst (embeddings d'))"
  using assms
proof (induction "is" arbitrary: d)
  case Nil
  then show ?case by simp
next
  case (Cons i "is")
  show ?case
  proof (cases "embed_batch ext (memory_ids_in_dest st) (batch_zip ext st i) d")
    case (Inl e)
    with Cons.prems show ?thesis by (simp add: embed_batches_Cons del: embed_batches.simps)
  next
    case (Inr d1)
    with Cons.prems have rest: "embed_batches ext st is d1 = (r, d')" by (simp add: embed_batches_Cons del: embed_batches.simps)
    from Cons.IH[OF rest embed_batch_distinct[OF Inr Cons.prems(2)]] show ?thesis .
  qed
qed

lemma prefix_keys_mono:
  "t' = t @ new \<Longrightarrow> key ` set t \<subseteq> key ` set t'"
  by auto

lemma embed_batches_idem:
  assumes "embed_batches ext st is d = (r, d')"
  shows "embed_batches ext st is d' = (r, d')"
  using assms
proof (induction "is" arbitrary: d)
  case Nil
  then show ?case by simp
next
  case (Cons i "is")
  show ?case
  proof (cases "embed_batch ext (memory_ids_in_dest st) (batch_zip ext st i) d")
    case (Inl e)
    with Cons.prems have "d' = d" "r = Some e" by (simp_all add: embed_batches_Cons del: embed_batches.simps)
    with Inl show ?thesis by (simp add: embed_batches_Cons del: embed_batches.simps)
  next
    case (Inr d1)
    with Cons.prems have rest: "embed_batches ext st is d1 = (r, d')" by (simp add: embed_batches_Cons del: embed_batches.simps)
    from embed_batches_prefix[OF rest] obtain new where "embeddings d' = embeddings d1 @ new" by blast
    then have "fst ` set (embeddings d1) \<subseteq> fst ` set (embeddings d')" by (rule prefix_keys_mono)
    with embed_batch_covers[OF Inr]
    have "fst ` set (embedding_rows ext (memory_ids_in_dest st) (batch_zip ext st i))
            \<subseteq> fst ` set (embeddings d')" by (rule subset_trans)
    then have "embed_batch ext (memory_ids_in_dest st) (batch_zip ext st i) d' = Inr d'"
      by (rule embed_batch_absorbed)
    with Cons.IH[OF rest] show ?thesis by (simp add: embed_batches_Cons del: embed_batches.simps)
  qed
qed

lemma embed_batches_conn:
  "embed_batches ext (st\<lparr>conn := c\<rparr>) is d = embed_batches ext st is d"
  by (induction "is" arbitrary: d) (simp_all add: Let_def split: sum.splits)




section \<open>Running the memories stage again\<close>

lemma migrate_records_Inl_indep:
  assumes "migrate_records ext recs st = Inl e"
  shows "migrate_records ext recs st' = Inl e"
  using assms
proof (induction recs arbitrary: st st')
  case Nil
  then show ?case by simp
next
  case (Cons r recs)
  show ?case
  proof (cases "snd (extract_coactivation ext (rec_id r) (metadata r) [])")
    case (Some x)
    with Cons.prems show ?thesis by (simp add: migrate_record_eq)
  next
    case None
    with Cons.prems have "migrate_records ext recs (loop_result ext [r] st) = Inl e"
      by (simp add: migrate_record_eq)
    from Cons.IH[OF this, of "loop_result ext [r] st'"] None show ?thesis
      by (simp add: migrate_record_eq)
  qed
qed

lemma insert_embedding_other_tables:
  "insert_embedding mid vec (d\<lparr>coactivation := C, episodes := E\<rparr>) =
     map_sum id (\<lambda>x. x\<lparr>coactivation := C, episodes := E\<rparr>) (insert_embedding mid vec d)"
  by (simp add: insert_embedding_def)

lemma embed_batch_other_tables:
  "embed_batch ext ids zs (d\<lparr>coactivation := C, episodes := E\<rparr>) =
     map_sum id (\<lambda>x. x\<lparr>coactivation := C, episodes := E\<rparr>) (embed_batch ext ids zs d)"
proof (induction zs arbitrary: d)
  case Nil
  show ?case by simp
next
  case (Cons z zs)
  obtain rec vec where z: "z = (rec, vec)" by (cases z)
  show ?case unfolding z
    by (cases "insert_embedding (rec_id rec) (vec_bytes ext vec) d")
       (simp_all add: insert_embedding_other_tables Cons.IH)
qed

lemma embed_batches_other_tables:
  "embed_batches ext st is (d\<lparr>coactivation := C, episodes := E\<rparr>) =
     map_prod id (\<lambda>x. x\<lparr>coactivation := C, episodes := E\<rparr>) (embed_batches ext st is d)"
proof (induction "is" arbitrary: d)
  case Nil
  show ?case by simp
next
  case (Cons i "is")
  show ?case
    by (cases "embed_batch ext (memory_ids_in_dest st) (batch_zip ext st i) d")
       (simp_all add: embed_batches_Cons embed_batch_other_tables Cons.IH del: embed_batches.simps)
qed

lemma loop_result_initial_conn:
  "loop_result ext recs (initial_state d2) = (loop_result ext recs (initial_state d))\<lparr>conn := fold insert_memory (rows_of ext recs) d2\<rparr>"
  by (simp add: loop_result_initial)

lemma migrate_memories_idem:
  assumes "migrate_memories ext recs d = (r, d1)"
  shows "migrate_memories ext recs (d1\<lparr>episodes := E\<rparr>) = (r, d1\<lparr>episodes := E\<rparr>)"
proof (cases "migrate_records ext recs (initial_state d)")
  case (Inl e)
  with assms have "r = Uncaught e" "d1 = d" by (simp_all add: migrate_memories_def)
  moreover from migrate_records_Inl_indep[OF Inl]
  have "migrate_records ext recs (initial_state (d\<lparr>episodes := E\<rparr>)) = Inl e" .
  ultimately show ?thesis by (simp add: migrate_memories_def)
next
  case (Inr st0)
  let ?st1 = "loop_result ext recs (initial_state d)"
  let ?ids = "rec_id ` set (inserted_records ext recs)"
  let ?is = "py_range_step (length (inserted_records ext recs)) batch_size"
  let ?dA = "fold insert_memory (rows_of ext recs) d"
  let ?d2 = "d1\<lparr>episodes := E\<rparr>"
  from migrate_records_Inr[OF Inr]
  have ok: "\<forall>r\<in>set recs. snd (extract_coactivation ext (rec_id r) (metadata r) []) = None"
    and st0: "st0 = ?st1" by simp_all
  have f1: "conn ?st1 = ?dA" "memory_ids_in_dest ?st1 = ?ids"
    "coactivation_entries ?st1 = entries_of ext recs"
    "valid_records ?st1 = inserted_records ext recs"
    by (simp_all add: loop_result_initial)
  obtain ro dB where emb: "embed_batches ext ?st1 ?is ?dA = (ro, dB)"
    by (cases "embed_batches ext ?st1 ?is ?dA")
  have rec1: "recompute_embeddings ext ?st1 = (ro, dB)"
    by (simp add: recompute_embeddings_def f1 emb)
  note frame = embed_batches_frame[OF emb]
  have memA: "memories ?dA = fold (ioi memory_not_null memory_id) (rows_of ext recs) (memories d)"
    by (simp add: fold_insert_memory_ioi)
  have res: "(r, d1) = (case ro of Some e \<Rightarrow> (Uncaught e, dB)
                | None \<Rightarrow> (Returned, reconcile ?ids (entries_of ext recs) dB))"
    using assms by (simp add: migrate_memories_def Inr st0 rec1 f1 split: option.splits)
  have d1_tabs: "memories d1 = memories dB" "embeddings d1 = embeddings dB"
    using res by (auto simp: reconcile_ioi split: option.splits)
  have d2_eq: "?d2 = dB\<lparr>coactivation := coactivation d1, episodes := E\<rparr>"
    using res by (auto simp: reconcile_ioi split: option.splits)
  \<comment> \<open>the second run\<close>
  let ?st2 = "loop_result ext recs (initial_state ?d2)"
  have run2: "migrate_records ext recs (initial_state ?d2) = Inr ?st2"
    by (rule migrate_records_ok[OF ok])
  have mem2: "memories ?d2 = fold (ioi memory_not_null memory_id) (rows_of ext recs) (memories d)"
    using d1_tabs frame memA by simp
  have conn2: "fold insert_memory (rows_of ext recs) ?d2 = ?d2"
  proof -
    have "fold (ioi memory_not_null memory_id) (rows_of ext recs) (memories ?d2) = memories ?d2"
      unfolding mem2 by (rule ioi_fold_idem)
    then show ?thesis unfolding fold_insert_memory_ioi[of "rows_of ext recs" ?d2] by simp
  qed
  have st2: "?st2 = ?st1\<lparr>conn := ?d2\<rparr>"
    using loop_result_initial_conn[of ext recs ?d2 d] conn2 by simp
  have emb2: "embed_batches ext ?st1 ?is ?d2 = (ro, ?d2)"
    using embed_batches_other_tables[of ext ?st1 ?is E "coactivation d1" dB]
          embed_batches_idem[OF emb]
    unfolding d2_eq by simp
  have rec2: "recompute_embeddings ext ?st2 = (ro, ?d2)"
    unfolding st2 recompute_embeddings_def
    by (simp add: embed_batches_conn f1 emb2)
  show ?thesis
  proof (cases ro)
    case (Some e)
    with res have "r = Uncaught e" by simp
    with Some show ?thesis by (simp add: migrate_memories_def run2 rec2)
  next
    case None
    with res have r: "r = Returned" and d1: "d1 = reconcile ?ids (entries_of ext recs) dB" by simp_all
    have co: "coactivation ?d2 = fold (ioi (edge_ok ?ids (memories dB)) edge_key) (entries_of ext recs) (coactivation dB)"
      unfolding d1 by (simp add: reconcile_ioi)
    have m2: "memories ?d2 = memories dB" using d1_tabs by simp
    have "fold (ioi (edge_ok ?ids (memories ?d2)) edge_key) (entries_of ext recs) (coactivation ?d2)
            = coactivation ?d2"
      unfolding m2 co by (rule ioi_fold_idem)
    then have "reconcile ?ids (entries_of ext recs) ?d2 = ?d2"
      unfolding reconcile_ioi[of ?ids "entries_of ext recs" ?d2] by simp
    moreover have "memory_ids_in_dest ?st2 = ?ids" "coactivation_entries ?st2 = entries_of ext recs"
      by (simp_all add: loop_result_initial)
    ultimately show ?thesis using None r
      by (simp add: migrate_memories_def run2 rec2)
  qed
qed

lemma migrate_memories_tables:
  assumes "migrate_memories ext recs d = (r, d1)"
  shows "(\<exists>new. memories d1 = memories d @ new)
       \<and> (\<exists>new. embeddings d1 = embeddings d @ new)
       \<and> (\<exists>new. coactivation d1 = coactivation d @ new)
       \<and> episodes d1 = episodes d
       \<and> (distinct (map memory_id (memories d)) \<longrightarrow> distinct (map memory_id (memories d1)))
       \<and> (distinct (map fst (embeddings d)) \<longrightarrow> distinct (map fst (embeddings d1)))
       \<and> (distinct (map edge_key (coactivation d)) \<longrightarrow> distinct (map edge_key (coactivation d1)))"
proof (cases "migrate_records ext recs (initial_state d)")
  case (Inl e)
  with assms have "d1 = d" by (simp add: migrate_memories_def)
  then show ?thesis by simp
next
  case (Inr st0)
  let ?st1 = "loop_result ext recs (initial_state d)"
  let ?ids = "rec_id ` set (inserted_records ext recs)"
  let ?is = "py_range_step (length (inserted_records ext recs)) batch_size"
  let ?dA = "fold insert_memory (rows_of ext recs) d"
  from migrate_records_Inr[OF Inr] have st0: "st0 = ?st1" by simp
  have f1: "conn ?st1 = ?dA" "memory_ids_in_dest ?st1 = ?ids"
    "coactivation_entries ?st1 = entries_of ext recs"
    "valid_records ?st1 = inserted_records ext recs"
    by (simp_all add: loop_result_initial)
  obtain ro dB where emb: "embed_batches ext ?st1 ?is ?dA = (ro, dB)"
    by (cases "embed_batches ext ?st1 ?is ?dA")
  have rec1: "recompute_embeddings ext ?st1 = (ro, dB)"
    by (simp add: recompute_embeddings_def f1 emb)
  note frame = embed_batches_frame[OF emb]
  have res: "(r, d1) = (case ro of Some e \<Rightarrow> (Uncaught e, dB)
                | None \<Rightarrow> (Returned, reconcile ?ids (entries_of ext recs) dB))"
    using assms by (simp add: migrate_memories_def Inr st0 rec1 f1 split: option.splits)
  have tA: "memories ?dA = fold (ioi memory_not_null memory_id) (rows_of ext recs) (memories d)"
    "embeddings ?dA = embeddings d" "coactivation ?dA = coactivation d" "episodes ?dA = episodes d"
    by (simp_all add: fold_insert_memory_ioi)
  have t1: "memories d1 = memories ?dA" "embeddings d1 = embeddings dB" "episodes d1 = episodes d"
    "coactivation d1 = coactivation d \<or>
     coactivation d1 = fold (ioi (edge_ok ?ids (memories dB)) edge_key) (entries_of ext recs) (coactivation d)"
    using res frame tA by (auto simp: reconcile_ioi split: option.splits)
  have m: "\<exists>new. memories d1 = memories d @ new"
    unfolding t1 tA
    using ioi_fold_prefix[of memory_not_null memory_id "rows_of ext recs" "memories d"] by auto
  have e: "\<exists>new. embeddings d1 = embeddings d @ new"
    unfolding t1 using embed_batches_prefix[OF emb] by (simp add: tA)
  have c: "\<exists>new. coactivation d1 = coactivation d @ new"
    using t1(4) ioi_fold_prefix[of "edge_ok ?ids (memories dB)" edge_key "entries_of ext recs" "coactivation d"]
    by auto
  have dm: "distinct (map memory_id (memories d)) \<longrightarrow> distinct (map memory_id (memories d1))"
    unfolding t1 tA by (simp add: ioi_fold_distinct)
  have de: "distinct (map fst (embeddings d)) \<longrightarrow> distinct (map fst (embeddings d1))"
    unfolding t1 using embed_batches_distinct[OF emb] by (simp add: tA)
  have dc: "distinct (map edge_key (coactivation d)) \<longrightarrow> distinct (map edge_key (coactivation d1))"
    using t1(4) by (auto simp: ioi_fold_distinct)
  from m e c t1(3) dm de dc show ?thesis by (intro conjI)
qed

lemma migrate_episodes_collection_ioi:
  "migrate_episodes_collection ext chroma d =
     d\<lparr>episodes := fold (ioi episode_not_null ep_id)
        (if ''episodes'' \<in> set (map snd (collections chroma))
         then episode_rows_of ext (read_chroma_collection chroma ''episodes'') else [])
        (episodes d)\<rparr>"
  by (simp add: migrate_episodes_collection_def migrate_episodes_ioi)

section \<open>Running the migration again\<close>

lemma migrate_running:
  assumes "numpy_import_error w = None" and "chroma_sqlite w = Some chroma"
      and "stripped_answer w = ''y''" and "model_load_error w = None"
  shows "migrate w d =
     (case memories_stage w chroma d of
        (Returned, d') \<Rightarrow> (Returned, migrate_episodes_collection (libs w) chroma d')
      | r \<Rightarrow> r)"
  using assms by (simp add: migrate_def memories_stage_def Let_def)

lemma migrate_not_running:
  assumes "\<not> (numpy_import_error w = None \<and> chroma_sqlite w \<noteq> None
              \<and> stripped_answer w = ''y'' \<and> model_load_error w = None)"
  shows "snd (migrate w d) = d \<and> fst (migrate w d') = fst (migrate w d)"
  using assms by (auto simp: migrate_def Let_def split: option.splits)

lemma memories_stage_idem:
  assumes "memories_stage w chroma d = (r, d1)"
  shows "memories_stage w chroma (d1\<lparr>episodes := E\<rparr>) = (r, d1\<lparr>episodes := E\<rparr>)"
proof (cases "find (\<lambda>n. n \<noteq> ''episodes'') (map snd (collections chroma))")
  case None
  with assms show ?thesis by (auto simp: memories_stage_def)
next
  case (Some n)
  show ?thesis
  proof (cases "n = []")
    case True
    with assms Some show ?thesis by (auto simp: memories_stage_def)
  next
    case False
    with assms Some have "migrate_memories (libs w) (read_chroma_collection chroma n) d = (r, d1)"
      by (simp add: memories_stage_def)
    from migrate_memories_idem[OF this, of E] Some False show ?thesis
      by (simp add: memories_stage_def)
  qed
qed

lemma memories_stage_tables:
  assumes "memories_stage w chroma d = (r, d1)"
  shows "(\<exists>new. memories d1 = memories d @ new)
       \<and> (\<exists>new. embeddings d1 = embeddings d @ new)
       \<and> (\<exists>new. coactivation d1 = coactivation d @ new)
       \<and> episodes d1 = episodes d
       \<and> (distinct (map memory_id (memories d)) \<longrightarrow> distinct (map memory_id (memories d1)))
       \<and> (distinct (map fst (embeddings d)) \<longrightarrow> distinct (map fst (embeddings d1)))
       \<and> (distinct (map edge_key (coactivation d)) \<longrightarrow> distinct (map edge_key (coactivation d1)))"
proof (cases "find (\<lambda>n. n \<noteq> ''episodes'') (map snd (collections chroma))")
  case None
  with assms have "d1 = d" by (auto simp: memories_stage_def)
  then show ?thesis by simp
next
  case (Some n)
  show ?thesis
  proof (cases "n = []")
    case True
    with assms Some have "d1 = d" by (auto simp: memories_stage_def)
    then show ?thesis by simp
  next
    case False
    with assms Some have "migrate_memories (libs w) (read_chroma_collection chroma n) d = (r, d1)"
      by (simp add: memories_stage_def)
    then show ?thesis by (rule migrate_memories_tables)
  qed
qed

section \<open>The sample migration, end to end\<close>

lemma read_memA: "read_chroma_collection sample_chroma ''memA'' = [rec_walk, rec_tea]"
  by (simp add: read_chroma_collection_def sample_chroma_def rec_walk_def rec_tea_def)

lemma read_episodes: "read_chroma_collection sample_chroma ''episodes'' = [rec_morning]"
  by (simp add: read_chroma_collection_def sample_chroma_def rec_morning_def)

lemma loop_sample:
  "migrate_records sample_externals [rec_walk, rec_tea] (initial_state empty_db) =
     Inr \<lparr>conn = empty_db\<lparr>memories := [row_walk, row_tea]\<rparr>,
          memory_ids_in_dest = {''id1'', ''id2''},
          coactivation_entries = [(''id1'', ''id2'', Finite 0.95)],
          docs_to_embed = [PStr ''awalk'', PStr ''tea''],
          valid_records = [rec_walk, rec_tea], warnings = []\<rparr>"
proof -
  have run: "migrate_records sample_externals [rec_walk, rec_tea] (initial_state empty_db)
      = Inr (loop_result sample_externals [rec_walk, rec_tea] (initial_state empty_db))"
    by (rule migrate_records_ok) (simp add: extract_walk extract_tea)
  have ins: "inserted_records sample_externals [rec_walk, rec_tea] = [rec_walk, rec_tea]"
    by (simp add: inserted_records_def isl_samples)
  have rows: "rows_of sample_externals [rec_walk, rec_tea] = [row_walk, row_tea]"
    by (simp add: rows_of_def ins row_walk_eq row_tea_eq)
  have ents: "entries_of sample_externals [rec_walk, rec_tea] = [(''id1'', ''id2'', Finite 0.95)]"
    by (simp add: entries_of_def extract_walk extract_tea)
  have warns: "warnings_of sample_externals [rec_walk, rec_tea] = []"
    by (simp add: warnings_of_def isl_samples)
  have ids: "rec_id rec_walk = ''id1''" "rec_id rec_tea = ''id2''"
    by (simp_all add: rec_walk_def rec_tea_def)
  have docs: "doc_to_embed sample_externals rec_walk = PStr ''awalk''"
      "doc_to_embed sample_externals rec_tea = PStr ''tea''"
    by (simp_all add: doc_to_embed_def normalized_def py_or_def rec_walk_def rec_tea_def
        sample_externals_def)
  have nn: "memory_not_null row_walk" "memory_not_null row_tea"
    "memory_id row_walk = SText ''id1''" "memory_id row_tea = SText ''id2''"
    by (simp_all add: memory_not_null_def row_walk_def row_tea_def)
  have conn: "fold insert_memory [row_walk, row_tea] empty_db = empty_db\<lparr>memories := [row_walk, row_tea]\<rparr>"
    by (simp add: insert_memory_def nn empty_db_def)
  show ?thesis
    unfolding run loop_result_initial ins rows ents warns conn
    by (simp add: ids docs insert_commute)
qed

lemma range_sample: "py_range_step (Suc (Suc 0)) 32 = [0]"
  by (simp add: py_range_step_def)

lemma embed_sample:
  "recompute_embeddings sample_externals
     \<lparr>conn = empty_db\<lparr>memories := [row_walk, row_tea]\<rparr>,
      memory_ids_in_dest = {''id1'', ''id2''},
      coactivation_entries = [(''id1'', ''id2'', Finite 0.95)],
      docs_to_embed = [PStr ''awalk'', PStr ''tea''],
      valid_records = [rec_walk, rec_tea], warnings = []\<rparr>
   = (None, empty_db\<lparr>memories := [row_walk, row_tea],
        embeddings := [(''id1'', [0, 0, 0x80, 0x3F, 0, 0, 0, 0]),
                       (''id2'', [0, 0, 0x80, 0x3F, 0, 0, 0, 0])]\<rparr>)"
proof -
  have ids: "rec_id rec_walk = ''id1''" "rec_id rec_tea = ''id2''"
    by (simp_all add: rec_walk_def rec_tea_def)
  have vb: "vec_bytes sample_externals [Finite 1, Finite 0] = [0, 0, 0x80, 0x3F, 0, 0, 0, 0]"
    by (simp add: vec_bytes_def encode_vector_def encode_float32_def sample_externals_def)
  have efs: "ef sample_externals [PStr ''awalk'', PStr ''tea''] = [[Finite 1, Finite 0], [Finite 1, Finite 0]]"
    by (simp add: ef_def sample_externals_def)
  have mid: "memory_id row_walk = SText ''id1''" "memory_id row_tea = SText ''id2''"
    by (simp_all add: row_walk_def row_tea_def)
  show ?thesis
    unfolding recompute_embeddings_def
    by (simp add: range_sample batch_size_def efs ids vb insert_embedding_def mid empty_db_def)
qed

lemma reconcile_sample:
  "reconcile {''id1'', ''id2''} [(''id1'', ''id2'', Finite 0.95)]
     (empty_db\<lparr>memories := [row_walk, row_tea],
        embeddings := [(''id1'', [0, 0, 0x80, 0x3F, 0, 0, 0, 0]),
                       (''id2'', [0, 0, 0x80, 0x3F, 0, 0, 0, 0])]\<rparr>)
   = sample_dest\<lparr>episodes := []\<rparr>"
proof -
  have mid: "memory_id row_walk = SText ''id1''" "memory_id row_tea = SText ''id2''"
    by (simp_all add: row_walk_def row_tea_def)
  show ?thesis
    by (simp add: reconcile_def reconcile_entry_def insert_coactivation_def edge_key_def mid
        empty_db_def sample_dest_def)
qed

lemma memories_sample:
  "migrate_memories sample_externals [rec_walk, rec_tea] empty_db
     = (Returned, sample_dest\<lparr>episodes := []\<rparr>)"
  unfolding migrate_memories_def loop_sample
  by (simp only: sum.case embed_sample prod.case option.case loop_state.select_convs
      reconcile_sample)

lemma row_morning_eq: "episode_insert_row sample_externals rec_morning = Inr row_morning"
  by (simp add: episode_insert_row_def episode_params_def meta_get_default_def meta_get_def
      end_time_of_def py_or_def episode_cells_def bind_episode_row_def rec_morning_def
      row_morning_def sample_externals_def)

lemma episodes_sample:
  "migrate_episodes_collection sample_externals sample_chroma (sample_dest\<lparr>episodes := []\<rparr>)
     = sample_dest"
proof -
  have c: "''episodes'' \<in> set (map snd (collections sample_chroma))"
    by (simp add: sample_chroma_def)
  have nn: "episode_not_null row_morning" by (simp add: episode_not_null_def row_morning_def)
  show ?thesis
    unfolding migrate_episodes_collection_def
    using c nn
    by (simp add: read_episodes migrate_episodes_def migrate_episode_def row_morning_eq
        insert_episode_def sample_dest_def)
qed

lemma migrate_sample: "migrate sample_world empty_db = (Returned, sample_dest)"
proof -
  have pre: "numpy_import_error sample_world = None" "chroma_sqlite sample_world = Some sample_chroma"
      "stripped_answer sample_world = ''y''" "model_load_error sample_world = None"
      "libs sample_world = sample_externals"
    by (simp_all add: sample_world_def stripped_answer_def sample_externals_def ascii_lower_def ascii_strip_def is_space_def)
  have ms: "memories_stage sample_world sample_chroma empty_db = (Returned, sample_dest\<lparr>episodes := []\<rparr>)"
    by (simp add: memories_stage_def sample_chroma_def pre(5) read_memA[unfolded sample_chroma_def] memories_sample)
  show ?thesis
    unfolding migrate_running[OF pre(1-4)] ms
    by (simp add: pre(5) episodes_sample)
qed

section \<open>Idempotence\<close>

text \<open>
  C3.  Running \<open>migrate\<close> again on the destination a run has left, with the same
  source and the same answers, ends the same way and leaves the destination exactly as
  it was: every table has the same rows.  A run only appends rows to the four tables
  (no row that was there is changed or removed), and it keeps the primary keys of each
  table free of duplicates.
\<close>

theorem migration_idempotent:
  "migrate w (snd (migrate w d)) = migrate w d
   \<and> (\<exists>new. memories (snd (migrate w d)) = memories d @ new)
   \<and> (\<exists>new. embeddings (snd (migrate w d)) = embeddings d @ new)
   \<and> (\<exists>new. coactivation (snd (migrate w d)) = coactivation d @ new)
   \<and> (\<exists>new. episodes (snd (migrate w d)) = episodes d @ new)
   \<and> (distinct (map memory_id (memories d)) \<longrightarrow>
        distinct (map memory_id (memories (snd (migrate w d)))))
   \<and> (distinct (map fst (embeddings d)) \<longrightarrow>
        distinct (map fst (embeddings (snd (migrate w d)))))
   \<and> (distinct (map edge_key (coactivation d)) \<longrightarrow>
        distinct (map edge_key (coactivation (snd (migrate w d)))))
   \<and> (distinct (map ep_id (episodes d)) \<longrightarrow>
        distinct (map ep_id (episodes (snd (migrate w d)))))"
proof (cases "numpy_import_error w = None \<and> chroma_sqlite w \<noteq> None
              \<and> stripped_answer w = ''y'' \<and> model_load_error w = None")
  case False
  from migrate_not_running[OF False, of d] migrate_not_running[OF False, of d d]
  have s: "snd (migrate w d) = d" by simp
  show ?thesis unfolding s by simp
next
  case True
  then obtain chroma where pre: "numpy_import_error w = None" "chroma_sqlite w = Some chroma"
      "stripped_answer w = ''y''" "model_load_error w = None"
    by auto
  note run = migrate_running[OF pre]
  obtain r d1 where ms: "memories_stage w chroma d = (r, d1)"
    by (cases "memories_stage w chroma d")
  note tabs = memories_stage_tables[OF ms]
  let ?rows = "if ''episodes'' \<in> set (map snd (collections chroma))
         then episode_rows_of (libs w) (read_chroma_collection chroma ''episodes'') else []"
  let ?E = "fold (ioi episode_not_null ep_id) ?rows (episodes d1)"
  show ?thesis
  proof (cases "r = Returned")
    case False
    then have m1: "migrate w d = (r, d1)" unfolding run[of d] ms by (cases r) simp_all
    from memories_stage_idem[OF ms, of "episodes d1"]
    have "memories_stage w chroma d1 = (r, d1)" by simp
    with False have m2: "migrate w d1 = (r, d1)" unfolding run[of d1] by (cases r) simp_all
    from tabs have ep: "\<exists>new. episodes d1 = episodes d @ new"
      and dep: "distinct (map ep_id (episodes d)) \<longrightarrow> distinct (map ep_id (episodes d1))"
      by simp_all
    from tabs m2 ep dep show ?thesis unfolding m1 by simp
  next
    case True
    have d': "migrate_episodes_collection (libs w) chroma d1 = d1\<lparr>episodes := ?E\<rparr>"
      by (rule migrate_episodes_collection_ioi)
    have m1: "migrate w d = (Returned, d1\<lparr>episodes := ?E\<rparr>)"
      unfolding run[of d] ms True by (simp add: d')
    from memories_stage_idem[OF ms, of ?E] True
    have ms2: "memories_stage w chroma (d1\<lparr>episodes := ?E\<rparr>) = (Returned, d1\<lparr>episodes := ?E\<rparr>)"
      by simp
    have "migrate_episodes_collection (libs w) chroma (d1\<lparr>episodes := ?E\<rparr>) = d1\<lparr>episodes := ?E\<rparr>"
      unfolding migrate_episodes_collection_ioi[of "libs w" chroma "d1\<lparr>episodes := ?E\<rparr>"]
      by (simp add: ioi_fold_idem)
    then have m2: "migrate w (d1\<lparr>episodes := ?E\<rparr>) = (Returned, d1\<lparr>episodes := ?E\<rparr>)"
      unfolding run[of "d1\<lparr>episodes := ?E\<rparr>"] ms2 by (simp del: set_map)
    from tabs have ed: "episodes d1 = episodes d" by simp
    obtain new where "?E = episodes d @ new"
      unfolding ed using ioi_fold_prefix[of episode_not_null ep_id ?rows "episodes d"] by blast
    then have ep: "\<exists>new. ?E = episodes d @ new" by (rule exI)
    have dep: "distinct (map ep_id (episodes d)) \<longrightarrow> distinct (map ep_id ?E)"
      unfolding ed by (rule impI) (rule ioi_fold_distinct)
    from tabs m2 ep dep show ?thesis unfolding m1 by simp
  qed
qed

theorem migration_idempotent_witness:
  "migrate sample_world empty_db = (Returned, sample_dest)
   \<and> migrate sample_world sample_dest = (Returned, sample_dest)
   \<and> distinct (map memory_id (memories empty_db))
   \<and> distinct (map memory_id (memories sample_dest))
   \<and> length (memories sample_dest) = 2 \<and> length (embeddings sample_dest) = 2
   \<and> length (coactivation sample_dest) = 1 \<and> length (episodes sample_dest) = 1"
proof -
  note idem = migration_idempotent[of sample_world empty_db]
  have again: "migrate sample_world sample_dest = (Returned, sample_dest)"
    using idem[THEN conjunct1] unfolding migrate_sample by simp
  have d0: "distinct (map memory_id (memories empty_db))" by (simp add: empty_db_def)
  note dm = idem[THEN conjunct2, THEN conjunct2, THEN conjunct2, THEN conjunct2, THEN conjunct2,
      THEN conjunct1, THEN mp, OF d0]
  have d1: "distinct (map memory_id (memories sample_dest))"
    using dm unfolding migrate_sample by simp
  have len: "length (memories sample_dest) = 2 \<and> length (embeddings sample_dest) = 2
   \<and> length (coactivation sample_dest) = 1 \<and> length (episodes sample_dest) = 1"
    by (simp add: sample_dest_def)
  from migrate_sample again d0 d1 len show ?thesis by (intro conjI) simp_all
qed

section \<open>Exit status of the script\<close>

lemma stripped_samples:
  "stripped_answer sample_world = ''y''"
  "stripped_answer huge_world = ''y''"
  "stripped_answer (sample_world\<lparr>answer := ''n''\<rparr>) = ''n''"
  "stripped_answer (sample_world\<lparr>answer := '' No ''\<rparr>) = ''no''"
  by (simp_all add: stripped_answer_def sample_world_def huge_world_def sample_externals_def)
     code_simp+

lemma sample_world_fields:
  "numpy_import_error sample_world = None" "chroma_sqlite sample_world = Some sample_chroma"
  "model_load_error sample_world = None" "libs sample_world = sample_externals"
  "source_path sample_world = ''/home/u/.claude/memories/chroma''"
  by (simp_all add: sample_world_def)

lemma huge_world_fields:
  "numpy_import_error huge_world = None" "chroma_sqlite huge_world = Some huge_chroma"
  "model_load_error huge_world = None" "libs huge_world = sample_externals"
  by (simp_all add: huge_world_def sample_world_def)

lemma read_huge: "read_chroma_collection huge_chroma ''memA'' = [rec_huge_weight, rec_tea]"
  by (simp add: read_chroma_collection_def huge_chroma_def sample_chroma_def
      rec_huge_weight_def rec_tea_def)

lemma migrate_huge: "migrate huge_world empty_db = (Uncaught OverflowError, empty_db)"
proof -
  note pre = huge_world_fields(1,2) stripped_samples(2) huge_world_fields(3,4)
  have mm: "migrate_memories sample_externals [rec_huge_weight, rec_tea] empty_db
       = (Uncaught OverflowError, empty_db)"
    by (simp add: migrate_memories_def migrate_record_eq extract_huge)
  have fnd: "find (\<lambda>n. n \<noteq> ''episodes'') (map snd (collections huge_chroma)) = Some ''memA''"
    by (simp add: huge_chroma_def sample_chroma_def)
  have ms: "memories_stage huge_world huge_chroma empty_db = (Uncaught OverflowError, empty_db)"
    unfolding memories_stage_def fnd by (simp add: pre(5) read_huge mm)
  show ?thesis
    unfolding migrate_running[OF pre(1-4)] ms by simp
qed

lemma memories_stage_no_exit:
  "fst (memories_stage w chroma d) \<noteq> SysExit status msgs"
  unfolding memories_stage_def
  by (simp add: migrate_memories_no_exit split: option.splits)

text \<open>
  C4, as stated, fails in both directions.  Declining the prompt ends the process with
  \<open>sys.exit(0)\<close>, a zero status; and a run in which \<open>numpy\<close> imports, \<open>chroma.sqlite3\<close>
  exists, the user accepts and the embedding model loads still ends with a non-zero status
  when an exception leaves \<open>migrate\<close> uncaught (here the \<open>OverflowError\<close> of a coactivation
  weight of 401 digits).
\<close>

theorem nonzero_exit_cases_counterexample:
  "exit_status (fst (migrate (sample_world\<lparr>answer := ''n''\<rparr>) empty_db)) = 0
   \<and> numpy_import_error huge_world = None \<and> chroma_sqlite huge_world \<noteq> None
   \<and> stripped_answer huge_world = ''y'' \<and> model_load_error huge_world = None
   \<and> exit_status (fst (migrate huge_world empty_db)) = 1"
proof -
  have "migrate (sample_world\<lparr>answer := ''n''\<rparr>) empty_db = (SysExit 0 [''Aborted.''], empty_db)"
    by (simp add: migrate_def Let_def stripped_samples sample_world_fields)
  then show ?thesis by (simp add: migrate_huge stripped_samples huge_world_fields)
qed

text \<open>
  C4, amended.  The process exits with a non-zero status exactly when \<open>numpy\<close> cannot be
  imported or \<open>chroma.sqlite3\<close> is absent (\<open>sys.exit(1)\<close>, at once, after a diagnostic
  message, no destination row written), or when an exception leaves \<open>migrate\<close> uncaught;
  the embedding library or model failing to load is such an exception and is raised before
  any destination row is written.  Declining the prompt exits at once with the message
  \<open>Aborted.\<close>, no destination row written, and status 0.  Every \<open>sys.exit\<close> leaves the
  destination as it was and follows a message.
\<close>

theorem fatal_exits:
  "(numpy_import_error w = Some msg \<longrightarrow>
      migrate w d = (SysExit 1 [''Error: '' @ msg, ''Install numpy: uv add numpy''], d))
   \<and> (numpy_import_error w = None \<and> chroma_sqlite w = None \<longrightarrow>
      migrate w d = (SysExit 1 [''Error: chroma.sqlite3 not found in '' @ source_path w], d))
   \<and> (numpy_import_error w = None \<and> chroma_sqlite w \<noteq> None \<and> stripped_answer w \<noteq> ''y'' \<longrightarrow>
      migrate w d = (SysExit 0 [''Aborted.''], d))
   \<and> (numpy_import_error w = None \<and> chroma_sqlite w \<noteq> None \<and> stripped_answer w = ''y''
        \<and> model_load_error w = Some e \<longrightarrow>
      migrate w d = (Uncaught e, d))
   \<and> (exit_status (fst (migrate w d)) \<noteq> 0 \<longleftrightarrow>
        numpy_import_error w \<noteq> None \<or> chroma_sqlite w = None
        \<or> (\<exists>e. fst (migrate w d) = Uncaught e))
   \<and> (\<forall>status msgs. fst (migrate w d) = SysExit status msgs \<longrightarrow>
        snd (migrate w d) = d \<and> msgs \<noteq> [])"
proof -
  have a: "numpy_import_error w = Some msg \<longrightarrow>
      migrate w d = (SysExit 1 [''Error: '' @ msg, ''Install numpy: uv add numpy''], d)"
    by (simp add: migrate_def)
  have b: "numpy_import_error w = None \<and> chroma_sqlite w = None \<longrightarrow>
      migrate w d = (SysExit 1 [''Error: chroma.sqlite3 not found in '' @ source_path w], d)"
    by (simp add: migrate_def)
  have c: "numpy_import_error w = None \<and> chroma_sqlite w \<noteq> None \<and> stripped_answer w \<noteq> ''y'' \<longrightarrow>
      migrate w d = (SysExit 0 [''Aborted.''], d)"
    by (auto simp: migrate_def Let_def)
  have c': "numpy_import_error w = None \<and> chroma_sqlite w \<noteq> None \<and> stripped_answer w = ''y''
        \<and> model_load_error w = Some e \<longrightarrow> migrate w d = (Uncaught e, d)"
    by (auto simp: migrate_def Let_def)
  have e: "(exit_status (fst (migrate w d)) \<noteq> 0 \<longleftrightarrow>
        numpy_import_error w \<noteq> None \<or> chroma_sqlite w = None
        \<or> (\<exists>e. fst (migrate w d) = Uncaught e))
   \<and> (\<forall>status msgs. fst (migrate w d) = SysExit status msgs \<longrightarrow>
        snd (migrate w d) = d \<and> msgs \<noteq> [])"
  proof (cases "numpy_import_error w")
    case (Some x)
    then show ?thesis by (simp add: migrate_def)
  next
    case None
    note np = this
    show ?thesis
    proof (cases "chroma_sqlite w")
      case None
      with np show ?thesis by (simp add: migrate_def)
    next
      case (Some chroma)
      show ?thesis
      proof (cases "stripped_answer w = ''y''")
        case False
        with np Some show ?thesis by (simp add: migrate_def Let_def)
      next
        case True
        note yes = this
        show ?thesis
        proof (cases "model_load_error w")
          case (Some x)
          with np \<open>chroma_sqlite w = Some chroma\<close> yes show ?thesis
            by (simp add: migrate_def Let_def)
        next
          case None
          note run = migrate_running[OF np \<open>chroma_sqlite w = Some chroma\<close> yes None, of d]
          obtain r d1 where ms: "memories_stage w chroma d = (r, d1)"
            by (cases "memories_stage w chroma d")
          have nx: "\<And>status msgs. r \<noteq> SysExit status msgs"
            using memories_stage_no_exit[of w chroma d] unfolding ms by simp
          show ?thesis
          proof (cases r)
            case (SysExit status msgs)
            with nx show ?thesis by blast
          next
            case (Uncaught x)
            then show ?thesis
              unfolding run ms using np \<open>chroma_sqlite w = Some chroma\<close> by simp
          next
            case Returned
            then show ?thesis
              unfolding run ms using np \<open>chroma_sqlite w = Some chroma\<close> by simp
          qed
        qed
      qed
    qed
  qed
  from a b c c' e show ?thesis by (intro conjI) simp_all
qed

lemma ascii_answers:
  "ascii_lower (ascii_strip ''y'') = ''y''"
  "ascii_lower (ascii_strip '' No '') = ''no''"
  by code_simp+

theorem fatal_exits_witness:
  "migrate (sample_world\<lparr>numpy_import_error := Some ''No module named numpy''\<rparr>) empty_db
     = (SysExit 1 [''Error: No module named numpy'', ''Install numpy: uv add numpy''], empty_db)
   \<and> migrate (sample_world\<lparr>chroma_sqlite := None\<rparr>) empty_db
     = (SysExit 1 [''Error: chroma.sqlite3 not found in /home/u/.claude/memories/chroma''], empty_db)
   \<and> stripped_answer (sample_world\<lparr>answer := '' No ''\<rparr>) = ''no''
   \<and> migrate (sample_world\<lparr>answer := '' No ''\<rparr>) empty_db = (SysExit 0 [''Aborted.''], empty_db)
   \<and> stripped_answer (sample_world\<lparr>model_load_error := Some ImportError\<rparr>) = ''y''
   \<and> migrate (sample_world\<lparr>model_load_error := Some ImportError\<rparr>) empty_db
     = (Uncaught ImportError, empty_db)"
proof -
  let ?w1 = "sample_world\<lparr>numpy_import_error := Some ''No module named numpy''\<rparr>"
  let ?w2 = "sample_world\<lparr>chroma_sqlite := None\<rparr>"
  let ?w3 = "sample_world\<lparr>answer := '' No ''\<rparr>"
  let ?w4 = "sample_world\<lparr>model_load_error := Some ImportError\<rparr>"
  have h1: "numpy_import_error ?w1 = Some ''No module named numpy''" by simp
  have h2: "numpy_import_error ?w2 = None \<and> chroma_sqlite ?w2 = None"
    by (simp add: sample_world_fields)
  have s3: "stripped_answer ?w3 = ''no''"
    by (simp add: stripped_answer_def sample_world_fields sample_externals_def ascii_answers)
  have h3: "numpy_import_error ?w3 = None \<and> chroma_sqlite ?w3 \<noteq> None \<and> stripped_answer ?w3 \<noteq> ''y''"
    by (simp add: sample_world_fields s3)
  have s4: "stripped_answer ?w4 = ''y''"
    by (simp add: stripped_answer_def sample_world_def sample_externals_def ascii_answers)
  have h4: "numpy_import_error ?w4 = None \<and> chroma_sqlite ?w4 \<noteq> None \<and> stripped_answer ?w4 = ''y''
        \<and> model_load_error ?w4 = Some ImportError"
    by (simp add: sample_world_fields s4)
  note f1 = fatal_exits[of ?w1 "''No module named numpy''" empty_db, THEN conjunct1, THEN mp, OF h1]
  note f2 = fatal_exits[of ?w2 "[]" empty_db, THEN conjunct2, THEN conjunct1, THEN mp, OF h2]
  note f3 = fatal_exits[of ?w3 "[]" empty_db, THEN conjunct2, THEN conjunct2, THEN conjunct1,
      THEN mp, OF h3]
  note f4 = fatal_exits[of ?w4 "[]" empty_db ImportError, THEN conjunct2, THEN conjunct2,
      THEN conjunct2, THEN conjunct1, THEN mp, OF h4]
  from f1 f2 s3 f3 s4 f4 show ?thesis by (simp add: sample_world_fields)
qed

section \<open>The coactivation entries of a run\<close>

lemma json_float_errors:
  "json_float ext j = Inl e \<Longrightarrow> e = TypeError \<or> e = ValueError \<or> e = OverflowError"
  by (cases j) (auto simp: float_of_int_def split: option.splits if_splits)

lemma extract_items_error:
  "extract_items ext mid kvs acc = (es, Some e) \<Longrightarrow> e = OverflowError"
proof (induction kvs arbitrary: acc)
  case Nil
  then show ?case by simp
next
  case (Cons kv kvs)
  obtain t raw where kv: "kv = (t, raw)" by (cases kv)
  show ?case
  proof (cases "json_float ext raw")
    case (Inl x)
    with Cons kv json_float_errors[OF Inl] show ?thesis by (auto split: if_splits)
  next
    case (Inr w)
    with Cons kv show ?thesis by auto
  qed
qed

lemma extract_items_complete:
  "extract_items ext mid kvs acc = (es, None) \<Longrightarrow> (t, raw) \<in> set kvs \<Longrightarrow>
   json_float ext raw = Inr w \<Longrightarrow> (mid, t, clamp_weight w) \<in> set es"
proof (induction kvs arbitrary: acc)
  case Nil
  then show ?case by simp
next
  case (Cons kv kvs)
  obtain t' raw' where kv: "kv = (t', raw')" by (cases kv)
  show ?case
  proof (cases "(t, raw) = (t', raw')")
    case True
    then have "extract_items ext mid kvs (acc @ [(mid, t, clamp_weight w)]) = (es, None)"
      using Cons.prems kv by simp
    from extract_items_mono[OF this] show ?thesis by auto
  next
    case False
    then have mem: "(t, raw) \<in> set kvs" using Cons.prems kv by auto
    show ?thesis
    proof (cases "json_float ext raw'")
      case (Inl x)
      with Cons.prems kv have "extract_items ext mid kvs acc = (es, None)"
        by (auto split: if_splits)
      from Cons.IH[OF this mem Cons.prems(3)] show ?thesis .
    next
      case (Inr w')
      with Cons.prems kv
      have "extract_items ext mid kvs (acc @ [(mid, t', clamp_weight w')]) = (es, None)"
        by auto
      from Cons.IH[OF this mem Cons.prems(3)] show ?thesis .
    qed
  qed
qed

lemma extract_items_sound:
  "e \<in> set (fst (extract_items ext mid kvs [])) \<Longrightarrow>
     \<exists>t raw w. (t, raw) \<in> set kvs \<and> json_float ext raw = Inr w \<and> e = (mid, t, clamp_weight w)"
proof (induction kvs)
  case Nil
  then show ?case by simp
next
  case (Cons kv kvs)
  obtain t j where kv: "kv = (t, j)" by (cases kv)
  show ?case
  proof (cases "json_float ext j")
    case (Inl err)
    with Cons kv show ?thesis by (auto split: if_splits)
  next
    case (Inr w)
    with Cons.prems kv have "e \<in> set ([(mid, t, clamp_weight w)] @ fst (extract_items ext mid kvs []))"
      using extract_items_acc[of ext mid kvs "[(mid, t, clamp_weight w)]"] by simp
    then consider "e = (mid, t, clamp_weight w)" | "e \<in> set (fst (extract_items ext mid kvs []))"
      by auto
    then show ?thesis
    proof cases
      case 1
      with Inr kv show ?thesis by auto
    next
      case 2
      from Cons.IH[OF this] kv show ?thesis by auto
    qed
  qed
qed

lemma extract_items_sound':
  "extract_items ext mid kvs [] = (es, r) \<Longrightarrow> e \<in> set es \<Longrightarrow>
     \<exists>t raw w. (t, raw) \<in> set kvs \<and> json_float ext raw = Inr w \<and> e = (mid, t, clamp_weight w)"
  using extract_items_sound[of e ext mid kvs] by simp

lemma extract_coactivation_sound:
  assumes "e \<in> set (fst (extract_coactivation ext mid meta []))"
  shows "\<exists>src kvs t raw w. meta ''coactivation'' = Some (PStr src) \<and>
           json_loads ext src = Inr (JObj kvs) \<and> (t, raw) \<in> set kvs \<and>
           json_float ext raw = Inr w \<and> e = (mid, t, clamp_weight w)"
proof -
  from assms obtain src where raw: "coact_raw meta = PStr src" and tr: "truthy (coact_raw meta)"
    unfolding extract_coactivation_def
    by (auto split: pyval.splits if_splits)
  then have m: "meta ''coactivation'' = Some (PStr src)"
    unfolding coact_raw_def meta_get_default_def py_or_def
    by (auto split: option.splits if_splits)
  from assms raw tr obtain kvs where jl: "json_loads ext src = Inr (JObj kvs)"
    unfolding extract_coactivation_def
    by (auto split: sum.splits json.splits if_splits)
  obtain es r where ei: "extract_items ext mid kvs [] = (es, r)"
    by (cases "extract_items ext mid kvs []")
  with assms raw tr jl have "e \<in> set es"
    unfolding extract_coactivation_def
    by (auto split: option.splits if_splits)
  from extract_items_sound'[OF ei this] m jl show ?thesis by blast
qed

lemma extract_coactivation_complete:
  assumes ok: "snd (extract_coactivation ext mid meta []) = None"
      and m: "meta ''coactivation'' = Some (PStr src)" and ne: "src \<noteq> []"
      and jl: "json_loads ext src = Inr (JObj kvs)"
      and item: "(t, raw) \<in> set kvs" and fl: "json_float ext raw = Inr w"
  shows "(mid, t, clamp_weight w) \<in> set (fst (extract_coactivation ext mid meta []))"
proof -
  have raw: "coact_raw meta = PStr src" "truthy (coact_raw meta)"
    using m ne unfolding coact_raw_def meta_get_default_def py_or_def by simp_all
  obtain es r where ei: "extract_items ext mid kvs [] = (es, r)"
    by (cases "extract_items ext mid kvs []")
  have rn: "r = None"
  proof (cases r)
    case None
    then show ?thesis .
  next
    case (Some e)
    with ei have "e = OverflowError" using extract_items_error by blast
    with ok raw jl ei Some show ?thesis
      unfolding extract_coactivation_def by simp
  qed
  have fs: "fst (extract_coactivation ext mid meta []) = es"
    using raw jl ei rn unfolding extract_coactivation_def by simp
  from extract_items_complete[OF ei[unfolded rn] item fl] fs show ?thesis by simp
qed



section \<open>Every admitted id has a row of \<open>memories\<close>\<close>







section \<open>The edges a run stores\<close>





lemma clamp_weight_cases:
  "clamp_weight (Finite r) = Finite (if 1 < r then 1 else if r < 0 then 0 else r)"
  "clamp_weight PosInf = Finite 1" "clamp_weight NegInf = Finite 0" "clamp_weight NaN = Finite 1"
  by (simp_all add: clamp_weight_def py_min_def py_max_def)

section \<open>A run with a dangling edge\<close>





section \<open>Admission of coactivation edges\<close>



end
